theory Spec2Isabelle
  imports Main "HOL-Library.Word"
begin

section \<open>Machine integers and errors of the Go backend\<close>

text \<open>
  The backend is built for \<open>GOARCH=amd64\<close> (build.sh), so Go's \<open>int\<close> is a 64-bit
  two's-complement integer. All arithmetic below wraps around as Go's does.
\<close>

type_synonym int16 = "16 word"
type_synonym int32 = "32 word"
type_synonym int64 = "64 word"
type_synonym goint = "64 word"

text \<open>\<open>len(xs)\<close> as a Go \<open>int\<close>.\<close>

definition len :: "'a list \<Rightarrow> goint" where
  "len xs = of_nat (length xs)"

text \<open>
  A non-nil value of Go's \<open>error\<close> interface: either an error made elsewhere, known only by
  the text that its \<open>Error()\<close> method renders, or one made by \<open>fmt.Errorf(prefix + "%w", inner)\<close>.
  A Go variable of type \<open>error\<close> is an \<open>error option\<close>, \<open>None\<close> being \<open>nil\<close>.
\<close>

datatype error = Err string | Errorf string error

fun Error :: "error \<Rightarrow> string" where
  "Error (Err m) = m"
| "Error (Errorf prefix inner) = prefix @ Error inner"

section \<open>Log directories by broker (backend/pkg/owl/log_dir_broker.go)\<close>

subsection \<open>What the Kafka client hands over\<close>

text \<open>
  The types of the franz-go client (\<open>kgo.BrokerMetadata\<close>, \<open>kmsg.DescribeLogDirsResponse\<close>) and
  of the Kafka service's per-broker response, with the fields that \<open>logDirsByBroker\<close> reads.
  Field names carry a prefix where two structs of the source share a name.
\<close>

record BrokerMetadata =
  NodeID :: int32
  Port :: int32
  Host :: string
  Rack :: "string option"

record DescribeLogDirsResponseDirTopicPartition =
  rp_Partition :: int32
  rp_Size :: int64
  rp_OffsetLag :: int64

record DescribeLogDirsResponseDirTopic =
  rt_Topic :: string
  rt_Partitions :: "DescribeLogDirsResponseDirTopicPartition list"

record DescribeLogDirsResponseDir =
  rd_ErrorCode :: int16
  rd_Dir :: string
  rd_Topics :: "DescribeLogDirsResponseDirTopic list"

record DescribeLogDirsResponse =
  Dirs :: "DescribeLogDirsResponseDir list"

record LogDirResponse =
  r_BrokerMetadata :: BrokerMetadata
  r_LogDirs :: DescribeLogDirsResponse
  r_Error :: "error option"

subsection \<open>The result types\<close>

text \<open>
  A slice is a list; a \<open>nil\<close> slice is the empty list (it has length 0 and ranges over
  nothing, as an empty slice does).
\<close>

record LogDirPartition =
  PartitionID :: int32
  OffsetLag :: int64
  SizeBytes :: int64

record LogDirTopic =
  TopicName :: string
  t_TotalSizeBytes :: int64
  Partitions :: "LogDirPartition list"

record LogDir =
  d_Error :: "error option"
  AbsolutePath :: string
  d_TotalSizeBytes :: int64
  Topics :: "LogDirTopic list"
  d_PartitionCount :: goint

record LogDirsByBroker =
  BrokerMeta :: BrokerMetadata
  b_Error :: "error option"
  LogDirs :: "LogDir list"
  b_TotalSizeBytes :: int64
  TopicCount :: goint
  b_PartitionCount :: goint

text \<open>The zero values that \<open>make([]T, n)\<close> fills a fresh slice with.\<close>

definition zeroLogDirPartition :: LogDirPartition where
  "zeroLogDirPartition = \<lparr>PartitionID = 0, OffsetLag = 0, SizeBytes = 0\<rparr>"

definition zeroLogDirTopic :: LogDirTopic where
  "zeroLogDirTopic = \<lparr>TopicName = [], t_TotalSizeBytes = 0, Partitions = []\<rparr>"

subsection \<open>The four nested \<open>for\<close> statements of \<open>logDirsByBroker\<close>\<close>

text \<open>
  \<open>for j, partition := range topic.Partitions\<close> (lines 84-91; \<open>part\<close> below): the running state is
  \<open>logDirTopic\<close>, the slot \<open>j\<close> of its preallocated \<open>Partitions\<close> is overwritten. The slice
  is made with the length of the range, so the index is always in range.
\<close>

fun partitionLoop ::
  "nat \<Rightarrow> DescribeLogDirsResponseDirTopicPartition list \<Rightarrow> LogDirTopic \<Rightarrow> LogDirTopic" where
  "partitionLoop j [] logDirTopic = logDirTopic"
| "partitionLoop j (part # rest) logDirTopic =
     partitionLoop (Suc j) rest
       (logDirTopic\<lparr>
          t_TotalSizeBytes := t_TotalSizeBytes logDirTopic + rp_Size part,
          Partitions := (Partitions logDirTopic)[j :=
            \<lparr>PartitionID = rp_Partition part,
             OffsetLag = rp_OffsetLag part,
             SizeBytes = rp_Size part\<rparr>]\<rparr>)"

text \<open>The body of the topic loop up to line 91: the fresh \<open>logDirTopic\<close> and its partition loop.\<close>

definition mkLogDirTopic :: "DescribeLogDirsResponseDirTopic \<Rightarrow> LogDirTopic" where
  "mkLogDirTopic topic =
     partitionLoop 0 (rt_Partitions topic)
       \<lparr>TopicName = rt_Topic topic,
        t_TotalSizeBytes = 0,
        Partitions = replicate (length (rt_Partitions topic)) zeroLogDirPartition\<rparr>"

text \<open>\<open>for i, topic := range dir.Topics\<close> (lines 78-95): the running state is \<open>logDir\<close>.\<close>

fun topicLoop :: "nat \<Rightarrow> DescribeLogDirsResponseDirTopic list \<Rightarrow> LogDir \<Rightarrow> LogDir" where
  "topicLoop i [] logDir = logDir"
| "topicLoop i (topic # rest) logDir =
     (let logDirTopic = mkLogDirTopic topic in
      topicLoop (Suc i) rest
        (logDir\<lparr>
           Topics := (Topics logDir)[i := logDirTopic],
           d_TotalSizeBytes := d_TotalSizeBytes logDir + t_TotalSizeBytes logDirTopic,
           d_PartitionCount := d_PartitionCount logDir + len (Partitions logDirTopic)\<rparr>))"

text \<open>
  \<open>for _, dir := range response.LogDirs.Dirs\<close> (lines 63-100): the running state is
  \<open>brokerLogDirs\<close>. \<open>errorForCode\<close> stands for \<open>kerr.ErrorForCode\<close> of the franz-go client,
  which is not part of this repository: it maps a Kafka status code to \<open>nil\<close> or to an error.
\<close>

fun dirLoop ::
  "(int16 \<Rightarrow> error option) \<Rightarrow> DescribeLogDirsResponseDir list \<Rightarrow> LogDirsByBroker
    \<Rightarrow> LogDirsByBroker" where
  "dirLoop errorForCode [] brokerLogDirs = brokerLogDirs"
| "dirLoop errorForCode (dir # rest) brokerLogDirs =
     (let err = errorForCode (rd_ErrorCode dir);
          logDir = \<lparr>d_Error = err, AbsolutePath = rd_Dir dir, d_TotalSizeBytes = 0,
                    Topics = [], d_PartitionCount = 0\<rparr>
      in if err \<noteq> None then
           dirLoop errorForCode rest
             (brokerLogDirs\<lparr>LogDirs := LogDirs brokerLogDirs @ [logDir]\<rparr>)
         else
           (let logDir' = topicLoop 0 (rd_Topics dir)
                  (logDir\<lparr>Topics := replicate (length (rd_Topics dir)) zeroLogDirTopic\<rparr>)
            in dirLoop errorForCode rest
                 (brokerLogDirs\<lparr>
                    LogDirs := LogDirs brokerLogDirs @ [logDir'],
                    b_TotalSizeBytes := b_TotalSizeBytes brokerLogDirs + d_TotalSizeBytes logDir',
                    TopicCount := TopicCount brokerLogDirs + len (Topics logDir'),
                    b_PartitionCount :=
                      b_PartitionCount brokerLogDirs + d_PartitionCount logDir'\<rparr>)))"

text \<open>The body of the outermost loop (lines 49-101): the entry stored for one response.\<close>

definition mkBrokerLogDirs :: "(int16 \<Rightarrow> error option) \<Rightarrow> LogDirResponse \<Rightarrow> LogDirsByBroker" where
  "mkBrokerLogDirs errorForCode response =
     (let brokerLogDirs =
            \<lparr>BrokerMeta = r_BrokerMetadata response, b_Error = r_Error response, LogDirs = [],
             b_TotalSizeBytes = 0, TopicCount = 0, b_PartitionCount = 0\<rparr>
      in if r_Error response \<noteq> None then brokerLogDirs
         else dirLoop errorForCode (Dirs (r_LogDirs response)) brokerLogDirs)"

text \<open>\<open>for _, response := range responses\<close> (lines 48-102): the running state is the map.\<close>

fun responseLoop ::
  "(int16 \<Rightarrow> error option) \<Rightarrow> LogDirResponse list \<Rightarrow> (int32 \<rightharpoonup> LogDirsByBroker)
    \<Rightarrow> (int32 \<rightharpoonup> LogDirsByBroker)" where
  "responseLoop errorForCode [] result = result"
| "responseLoop errorForCode (response # rest) result =
     responseLoop errorForCode rest
       (result(NodeID (r_BrokerMetadata response) \<mapsto> mkBrokerLogDirs errorForCode response))"

text \<open>
  \<open>logDirsByBroker\<close>, given what \<open>s.kafkaSvc.DescribeLogDirs(ctx, nil)\<close> returned. The second
  component is the \<open>error\<close> result of the Go function.
\<close>

definition logDirsByBroker ::
  "(int16 \<Rightarrow> error option) \<Rightarrow> LogDirResponse list
    \<Rightarrow> (int32 \<rightharpoonup> LogDirsByBroker) \<times> error option" where
  "logDirsByBroker errorForCode responses =
     (responseLoop errorForCode responses Map.empty, None)"

subsection \<open>Auxiliary definitions and sample inputs\<close>

text \<open>
  The \<open>LogDir\<close> that one pass of the directory loop appends to \<open>brokerLogDirs.LogDirs\<close>
  (lines 64-96, either at line 73 or at line 96). The loop above does not use it; the lemmas
  below show that the loop appends exactly this value.
\<close>

definition mkLogDir :: "(int16 \<Rightarrow> error option) \<Rightarrow> DescribeLogDirsResponseDir \<Rightarrow> LogDir" where
  "mkLogDir errorForCode dir =
     (let err = errorForCode (rd_ErrorCode dir);
          logDir = \<lparr>d_Error = err, AbsolutePath = rd_Dir dir, d_TotalSizeBytes = 0,
                    Topics = [], d_PartitionCount = 0\<rparr>
      in if err \<noteq> None then logDir
         else topicLoop 0 (rd_Topics dir)
                (logDir\<lparr>Topics := replicate (length (rd_Topics dir)) zeroLogDirTopic\<rparr>))"

text \<open>
  Concrete inputs on which the theorems below are evaluated. \<open>kerrSample\<close> is a table for
  \<open>kerr.ErrorForCode\<close> with the shape of the client's: \<open>nil\<close> for code 0, an error otherwise.
\<close>

definition kerrSample :: "int16 \<Rightarrow> error option" where
  "kerrSample code = (if code = 0 then None else Some (Err ''UNKNOWN_SERVER_ERROR''))"

definition ordersDir :: DescribeLogDirsResponseDir where
  "ordersDir =
     \<lparr>rd_ErrorCode = 0, rd_Dir = ''/var/lib/kafka'',
      rd_Topics = [\<lparr>rt_Topic = ''orders'',
                    rt_Partitions = [\<lparr>rp_Partition = 0, rp_Size = 100, rp_OffsetLag = 0\<rparr>,
                                     \<lparr>rp_Partition = 1, rp_Size = 150, rp_OffsetLag = 0\<rparr>]\<rparr>]\<rparr>"

definition brokerMeta :: "int32 \<Rightarrow> BrokerMetadata" where
  "brokerMeta n = \<lparr>NodeID = n, Port = 9092, Host = ''kafka'', Rack = None\<rparr>"

text \<open>
  Three brokers report their log directories; the call to broker 2 fails; brokers 1 and 3
  report one directory with the topic "orders" and two partitions of 100 and 150 bytes.
\<close>

definition scenario :: "LogDirResponse list" where
  "scenario =
     [\<lparr>r_BrokerMetadata = brokerMeta 1, r_LogDirs = \<lparr>Dirs = [ordersDir]\<rparr>, r_Error = None\<rparr>,
      \<lparr>r_BrokerMetadata = brokerMeta 2, r_LogDirs = \<lparr>Dirs = []\<rparr>,
       r_Error = Some (Err ''connection refused'')\<rparr>,
      \<lparr>r_BrokerMetadata = brokerMeta 3, r_LogDirs = \<lparr>Dirs = [ordersDir]\<rparr>, r_Error = None\<rparr>]"

text \<open>The entry expected for broker \<open>n\<close> of that scenario.\<close>

definition ordersBroker :: "int32 \<Rightarrow> LogDirsByBroker" where
  "ordersBroker n =
     \<lparr>BrokerMeta = brokerMeta n, b_Error = None,
      LogDirs = [\<lparr>d_Error = None, AbsolutePath = ''/var/lib/kafka'', d_TotalSizeBytes = 250,
                  Topics = [\<lparr>TopicName = ''orders'', t_TotalSizeBytes = 250,
                             Partitions = [\<lparr>PartitionID = 0, OffsetLag = 0, SizeBytes = 100\<rparr>,
                                           \<lparr>PartitionID = 1, OffsetLag = 0, SizeBytes = 150\<rparr>]\<rparr>],
                  d_PartitionCount = 2\<rparr>],
      b_TotalSizeBytes = 250, TopicCount = 1, b_PartitionCount = 2\<rparr>"

text \<open>Two responses that carry the same broker id.\<close>

definition duplicated :: "LogDirResponse list" where
  "duplicated =
     [\<lparr>r_BrokerMetadata = brokerMeta 1, r_LogDirs = \<lparr>Dirs = [ordersDir]\<rparr>, r_Error = None\<rparr>,
      \<lparr>r_BrokerMetadata = brokerMeta 1, r_LogDirs = \<lparr>Dirs = []\<rparr>, r_Error = None\<rparr>]"

text \<open>A directory reported with KAFKA_STORAGE_ERROR (56), next to a healthy one.\<close>

definition failingDir :: DescribeLogDirsResponseDir where
  "failingDir =
     \<lparr>rd_ErrorCode = 56, rd_Dir = ''/mnt/broken'',
      rd_Topics = [\<lparr>rt_Topic = ''lost'',
                    rt_Partitions = [\<lparr>rp_Partition = 0, rp_Size = 999, rp_OffsetLag = 0\<rparr>]\<rparr>]\<rparr>"

definition mixedDirs :: "LogDirResponse list" where
  "mixedDirs =
     [\<lparr>r_BrokerMetadata = brokerMeta 7, r_LogDirs = \<lparr>Dirs = [failingDir, ordersDir]\<rparr>,
       r_Error = None\<rparr>]"

definition mixedBroker :: LogDirsByBroker where
  "mixedBroker =
     (ordersBroker 7)\<lparr>LogDirs :=
        \<lparr>d_Error = Some (Err ''UNKNOWN_SERVER_ERROR''), AbsolutePath = ''/mnt/broken'',
         d_TotalSizeBytes = 0, Topics = [], d_PartitionCount = 0\<rparr> # LogDirs (ordersBroker 7)\<rparr>"

section \<open>Partition reassignments (package owl)\<close>

subsection \<open>What the Kafka client hands over\<close>

text \<open>
  The Go source of the reassignment translator is the second document of
  src/frontend/src/utils/utils.ts (package owl, from line 765 of that file on); the line numbers
  below are those of that file. First the \<open>kmsg\<close> response types of the franz-go client, with
  the fields the translator reads.
\<close>

record ListPartitionReassignmentsResponseTopicPartition =
  lp_Partition :: int32
  lp_Replicas :: "int32 list"
  lp_AddingReplicas :: "int32 list"
  lp_RemovingReplicas :: "int32 list"

record ListPartitionReassignmentsResponseTopic =
  lt_Topic :: string
  lt_Partitions :: "ListPartitionReassignmentsResponseTopicPartition list"

record ListPartitionReassignmentsResponse =
  l_ErrorCode :: int16
  l_ErrorMessage :: "string option"
  l_Topics :: "ListPartitionReassignmentsResponseTopic list"

subsection \<open>\<open>ListPartitionReassignments\<close>\<close>

text \<open>The result types (lines 776-787).\<close>

record PartitionReassignmentsPartition =
  pr_PartitionID :: int32
  AddingReplicas :: "int32 list"
  RemovingReplicas :: "int32 list"
  Replicas :: "int32 list"

record PartitionReassignments =
  pr_TopicName :: string
  pr_Partitions :: "PartitionReassignmentsPartition list"

text \<open>
  \<open>for _, partition := range topic.Partitions\<close> (lines 804-811): one entry is appended per
  partition. Line 809 fills \<open>Replicas\<close> from \<open>partition.RemovingReplicas\<close>, and so does the model.
\<close>

fun listPartitionLoop ::
  "ListPartitionReassignmentsResponseTopicPartition list \<Rightarrow> PartitionReassignmentsPartition list
    \<Rightarrow> PartitionReassignmentsPartition list" where
  "listPartitionLoop [] partitionAssignments = partitionAssignments"
| "listPartitionLoop (part # rest) partitionAssignments =
     listPartitionLoop rest
       (partitionAssignments @
          [\<lparr>pr_PartitionID = lp_Partition part,
            AddingReplicas = lp_AddingReplicas part,
            RemovingReplicas = lp_RemovingReplicas part,
            Replicas = lp_RemovingReplicas part\<rparr>])"

text \<open>\<open>for _, topic := range reassignments.Topics\<close> (lines 802-817).\<close>

fun listTopicLoop ::
  "ListPartitionReassignmentsResponseTopic list \<Rightarrow> PartitionReassignments list
    \<Rightarrow> PartitionReassignments list" where
  "listTopicLoop [] topicReassignments = topicReassignments"
| "listTopicLoop (topic # rest) topicReassignments =
     (let partitionAssignments = listPartitionLoop (lt_Partitions topic) [] in
      listTopicLoop rest
        (topicReassignments @
           [\<lparr>pr_TopicName = lt_Topic topic, pr_Partitions = partitionAssignments\<rparr>]))"

text \<open>
  \<open>ListPartitionReassignments\<close> (lines 790-820), given what
  \<open>s.kafkaSvc.ListPartitionReassignments(ctx)\<close> returned: the response and the error of the call.
  \<open>Inl\<close> is the Go function's error result, which comes with a \<open>nil\<close> slice.
\<close>

definition ListPartitionReassignments ::
  "(int16 \<Rightarrow> error option) \<Rightarrow> ListPartitionReassignmentsResponse \<times> error option
    \<Rightarrow> error + PartitionReassignments list" where
  "ListPartitionReassignments errorForCode call =
     (let (reassignments, err) = call in
      case err of
        Some e \<Rightarrow> Inl (Errorf ''failed to list partition reassignments: '' e)
      | None \<Rightarrow>
          (case errorForCode (l_ErrorCode reassignments) of
             Some e \<Rightarrow> Inl (Errorf ''failed to list partition reassignments. Inner error: '' e)
           | None \<Rightarrow> Inr (listTopicLoop (l_Topics reassignments) [])))"

subsection \<open>\<open>AlterPartitionAssignments\<close>\<close>

text \<open>The request and response types of the client, and the result types (lines 823-833).\<close>

record AlterPartitionAssignmentsRequestTopicPartition =
  qp_Partition :: int32
  qp_Replicas :: "int32 list"

record AlterPartitionAssignmentsRequestTopic =
  qt_Topic :: string
  qt_Partitions :: "AlterPartitionAssignmentsRequestTopicPartition list"

record AlterPartitionAssignmentsResponseTopicPartition =
  ap_Partition :: int32
  ap_ErrorCode :: int16
  ap_ErrorMessage :: "string option"

record AlterPartitionAssignmentsResponseTopic =
  at_Topic :: string
  at_Partitions :: "AlterPartitionAssignmentsResponseTopicPartition list"

record AlterPartitionAssignmentsResponse =
  a_ErrorCode :: int16
  a_ErrorMessage :: "string option"
  a_Topics :: "AlterPartitionAssignmentsResponseTopic list"

record AlterPartitionReassignmentsPartitionResponse =
  ar_PartitionID :: int32
  ErrorCode :: string
  ErrorMessage :: "string option"

record AlterPartitionReassignmentsResponse =
  ar_TopicName :: string
  ar_Partitions :: "AlterPartitionReassignmentsPartitionResponse list"

text \<open>The zero values that \<open>make([]T, n)\<close> fills the result slices with.\<close>

definition zeroPartitionResponse :: AlterPartitionReassignmentsPartitionResponse where
  "zeroPartitionResponse = \<lparr>ar_PartitionID = 0, ErrorCode = [], ErrorMessage = None\<rparr>"

definition zeroAlterResponse :: AlterPartitionReassignmentsResponse where
  "zeroAlterResponse = \<lparr>ar_TopicName = [], ar_Partitions = []\<rparr>"

text \<open>
  The body of the partition loop (lines 852-862): \<open>errorStr\<close> stays empty unless
  \<open>kerr.ErrorForCode\<close> gives an error, whose \<open>Error()\<close> text it then takes.
\<close>

definition alterPartitionResponse ::
  "(int16 \<Rightarrow> error option) \<Rightarrow> AlterPartitionAssignmentsResponseTopicPartition
    \<Rightarrow> AlterPartitionReassignmentsPartitionResponse" where
  "alterPartitionResponse errorForCode part =
     (let kErr = errorForCode (ap_ErrorCode part);
          errorStr = (case kErr of Some e \<Rightarrow> Error e | None \<Rightarrow> [])
      in \<lparr>ar_PartitionID = ap_Partition part,
          ErrorCode = errorStr,
          ErrorMessage = ap_ErrorMessage part\<rparr>)"

text \<open>\<open>for j, partition := range topic.Partitions\<close> (lines 850-863).\<close>

fun alterPartitionLoop ::
  "(int16 \<Rightarrow> error option) \<Rightarrow> nat \<Rightarrow> AlterPartitionAssignmentsResponseTopicPartition list
    \<Rightarrow> AlterPartitionReassignmentsPartitionResponse list
    \<Rightarrow> AlterPartitionReassignmentsPartitionResponse list" where
  "alterPartitionLoop errorForCode j [] partitions = partitions"
| "alterPartitionLoop errorForCode j (part # rest) partitions =
     alterPartitionLoop errorForCode (Suc j) rest
       (partitions[j := alterPartitionResponse errorForCode part])"

text \<open>\<open>for i, topic := range kRes.Topics\<close> (lines 848-868).\<close>

fun alterTopicLoop ::
  "(int16 \<Rightarrow> error option) \<Rightarrow> nat \<Rightarrow> AlterPartitionAssignmentsResponseTopic list
    \<Rightarrow> AlterPartitionReassignmentsResponse list \<Rightarrow> AlterPartitionReassignmentsResponse list" where
  "alterTopicLoop errorForCode i [] res = res"
| "alterTopicLoop errorForCode i (topic # rest) res =
     (let partitions = alterPartitionLoop errorForCode 0 (at_Partitions topic)
            (replicate (length (at_Partitions topic)) zeroPartitionResponse)
      in alterTopicLoop errorForCode (Suc i) rest
           (res[i := \<lparr>ar_TopicName = at_Topic topic, ar_Partitions = partitions\<rparr>]))"

text \<open>
  \<open>AlterPartitionAssignments\<close> (lines 836-871). \<open>kafkaSvc\<close> stands for
  \<open>s.kafkaSvc.AlterPartitionAssignments(ctx, \<cdot>)\<close>, the call to the cluster: from the requested
  topics to the response and the error of the call.
\<close>

definition AlterPartitionAssignments ::
  "(int16 \<Rightarrow> error option)
    \<Rightarrow> (AlterPartitionAssignmentsRequestTopic list \<Rightarrow> AlterPartitionAssignmentsResponse \<times> error option)
    \<Rightarrow> AlterPartitionAssignmentsRequestTopic list
    \<Rightarrow> error + AlterPartitionReassignmentsResponse list" where
  "AlterPartitionAssignments errorForCode kafkaSvc topics =
     (let (kRes, err) = kafkaSvc topics in
      case err of
        Some e \<Rightarrow> Inl (Errorf ''failed to reassign partitions: '' e)
      | None \<Rightarrow>
          (case errorForCode (a_ErrorCode kRes) of
             Some e \<Rightarrow> Inl (Errorf ''failed to reassign partitions. Inner error: '' e)
           | None \<Rightarrow>
               Inr (alterTopicLoop errorForCode 0 (a_Topics kRes)
                      (replicate (length (a_Topics kRes)) zeroAlterResponse))))"

subsection \<open>Auxiliary definitions and sample inputs\<close>

text \<open>
  What the translator's callers rely on from \<open>kerr.ErrorForCode\<close> of the franz-go client, which
  is not part of this repository: it returns \<open>nil\<close> for code 0 and for no other code, and the
  errors it returns render as a non-empty text.
\<close>

definition kerrContract :: "(int16 \<Rightarrow> error option) \<Rightarrow> bool" where
  "kerrContract errorForCode \<longleftrightarrow>
     (\<forall>code. (errorForCode code = None) = (code = 0)) \<and>
     (\<forall>code. case errorForCode code of None \<Rightarrow> True | Some e \<Rightarrow> Error e \<noteq> [])"

text \<open>
  One topic with one partition that is being reassigned: replica 4 is being added, replica 1
  removed, the replica set is 1, 2, 3, 4.
\<close>

definition reassignmentListing :: ListPartitionReassignmentsResponse where
  "reassignmentListing =
     \<lparr>l_ErrorCode = 0, l_ErrorMessage = None,
      l_Topics = [\<lparr>lt_Topic = ''orders'',
                   lt_Partitions = [\<lparr>lp_Partition = 0, lp_Replicas = [1, 2, 3, 4],
                                     lp_AddingReplicas = [4], lp_RemovingReplicas = [1]\<rparr>]\<rparr>]\<rparr>"

text \<open>
  The cluster accepts the reassignment of partition 0 and rejects that of partition 1
  (INVALID_REPLICA_ASSIGNMENT, 39).
\<close>

definition alterResult :: AlterPartitionAssignmentsResponse where
  "alterResult =
     \<lparr>a_ErrorCode = 0, a_ErrorMessage = None,
      a_Topics = [\<lparr>at_Topic = ''orders'',
                   at_Partitions =
                     [\<lparr>ap_Partition = 0, ap_ErrorCode = 0, ap_ErrorMessage = None\<rparr>,
                      \<lparr>ap_Partition = 1, ap_ErrorCode = 39,
                       ap_ErrorMessage = Some ''replica 9 is not a broker''\<rparr>]\<rparr>]\<rparr>"

definition alterRequest :: "AlterPartitionAssignmentsRequestTopic list" where
  "alterRequest =
     [\<lparr>qt_Topic = ''orders'',
       qt_Partitions = [\<lparr>qp_Partition = 0, qp_Replicas = [1, 2]\<rparr>,
                        \<lparr>qp_Partition = 1, qp_Replicas = [2, 9]\<rparr>]\<rparr>]"

section \<open>Topic and consumer-group handlers (backend/pkg/api)\<close>

subsection \<open>Types\<close>

text \<open>
  \<open>rest.Error\<close> of the cloudhut/common library, and the two fields of \<open>owl.TopicSummary\<close> and
  \<open>owl.ConsumerGroupOverview\<close> that the handlers touch. The functions below are written over
  the records' extensions, so they hold whatever further fields these structs carry.
\<close>

record restError =
  re_Err :: "error option"
  re_Status :: int
  re_Message :: string
  re_IsSilent :: bool

record TopicSummary =
  ts_TopicName :: string
  ts_AllowedActions :: "string list"

record ConsumerGroupOverview =
  GroupID :: string
  cg_AllowedActions :: "string list"

text \<open>
  The four hooks of the \<open>OwlHooks\<close> interface (src/unnamed/part_002) that the two handlers
  call. A hook returns its value together with a \<open>*rest.Error\<close>, \<open>None\<close> being \<open>nil\<close>.
\<close>

record OwlHooks =
  CanSeeTopic :: "string \<Rightarrow> bool \<times> restError option"
  AllowedTopicActions :: "string \<Rightarrow> string list \<times> restError option"
  CanSeeConsumerGroup :: "string \<Rightarrow> bool \<times> restError option"
  AllowedConsumerGroupActions :: "string \<Rightarrow> string list \<times> restError option"

text \<open>The hook invocations a handler makes are recorded in order.\<close>

datatype hookCall =
  CallCanSeeTopic string
| CallAllowedTopicActions string
| CallCanSeeConsumerGroup string
| CallAllowedConsumerGroupActions string

text \<open>
  What a handler does to the request: \<open>rest.SendRESTError\<close>, \<open>rest.SendResponse\<close> with a
  status and a body, or a panic on a \<open>nil\<close> pointer.
\<close>

datatype 'a outcome = SendRESTError restError | SendResponse int 'a | NilDereference

text \<open>
  \<open>GetTopicsOverview\<close> returns \<open>[]*owl.TopicSummary\<close>: a list of pointers into a store. The loop
  of \<open>handleGetTopics\<close> writes through these pointers after it has appended them, so the store
  is part of the state. An address the store does not hold is the \<open>nil\<close> pointer.
\<close>

type_synonym ptr = nat

record 'a topicsState =
  visibleTopics :: "ptr list"
  heap :: "ptr \<rightharpoonup> 'a TopicSummary_scheme"
  t_calls :: "hookCall list"

definition StatusOK :: int where "StatusOK = 200"

definition StatusInternalServerError :: int where "StatusInternalServerError = 500"

subsection \<open>\<open>handleGetTopics\<close> (handle_topics.go, lines 16-60)\<close>

text \<open>
  \<open>for _, topic := range topics\<close> (lines 35-53). The pointer is appended when \<open>canSee\<close> holds
  (lines 43-45); \<open>AllowedTopicActions\<close> is called and its result written through the pointer
  in either case (line 48), before its error is looked at (lines 49-52).
\<close>

fun topicsLoop ::
  "OwlHooks \<Rightarrow> ptr list \<Rightarrow> 'a topicsState
    \<Rightarrow> ('a TopicSummary_scheme option list) outcome option \<times> 'a topicsState" where
  "topicsLoop hooks [] st = (None, st)"
| "topicsLoop hooks (topic # rest) st =
     (case heap st topic of
        None \<Rightarrow> (Some NilDereference, st)
      | Some t \<Rightarrow>
          (let (canSee, restErr) = CanSeeTopic hooks (ts_TopicName t);
               st1 = st\<lparr>t_calls := t_calls st @ [CallCanSeeTopic (ts_TopicName t)]\<rparr>
           in case restErr of
                Some e \<Rightarrow> (Some (SendRESTError e), st1)
              | None \<Rightarrow>
                  (let st2 = (if canSee
                              then st1\<lparr>visibleTopics := visibleTopics st1 @ [topic]\<rparr>
                              else st1);
                       (actions, restErr) = AllowedTopicActions hooks (ts_TopicName t);
                       st3 = st2\<lparr>heap := (heap st2)(topic \<mapsto> t\<lparr>ts_AllowedActions := actions\<rparr>),
                                  t_calls := t_calls st2 @ [CallAllowedTopicActions (ts_TopicName t)]\<rparr>
                   in case restErr of
                        Some e \<Rightarrow> (Some (SendRESTError e), st3)
                      | None \<Rightarrow> topicsLoop hooks rest st3)))"

text \<open>
  The handler, given what \<open>api.OwlSvc.GetTopicsOverview\<close> returned and the store. The body of
  the response is the JSON of \<open>visibleTopics\<close>, that is what the pointers hold when the loop is
  over. The state is returned too.
\<close>

definition handleGetTopics ::
  "OwlHooks \<Rightarrow> ptr list \<times> error option \<Rightarrow> (ptr \<rightharpoonup> 'a TopicSummary_scheme)
    \<Rightarrow> ('a TopicSummary_scheme option list) outcome \<times> 'a topicsState" where
  "handleGetTopics hooks overview heap0 =
     (let (topics, err) = overview;
          st0 = \<lparr>visibleTopics = [], heap = heap0, t_calls = []\<rparr>
      in case err of
           Some e \<Rightarrow>
             (SendRESTError \<lparr>re_Err = Some e, re_Status = StatusInternalServerError,
                             re_Message = ''Could not list topics from Kafka cluster'',
                             re_IsSilent = False\<rparr>, st0)
         | None \<Rightarrow>
             (case topicsLoop hooks topics st0 of
                (Some abort, st) \<Rightarrow> (abort, st)
              | (None, st) \<Rightarrow>
                  (SendResponse StatusOK (map (heap st) (visibleTopics st)), st)))"

subsection \<open>\<open>handleGetConsumerGroups\<close> (second document of config.go, lines 286-325)\<close>

text \<open>\<open>describedGroups\<close> is a slice of values: \<open>group\<close> is a copy, written to and then appended.\<close>

record 'a groupsState =
  visibleGroups :: "'a ConsumerGroupOverview_scheme list"
  g_calls :: "hookCall list"

text \<open>
  \<open>for _, group := range describedGroups\<close> (lines 301-318; \<open>grp\<close> below). A group that the
  caller may not see is skipped at once (lines 307-309).
\<close>

fun groupsLoop ::
  "OwlHooks \<Rightarrow> 'a ConsumerGroupOverview_scheme list \<Rightarrow> 'a groupsState
    \<Rightarrow> restError option \<times> 'a groupsState" where
  "groupsLoop hooks [] st = (None, st)"
| "groupsLoop hooks (grp # rest) st =
     (let (canSee, restErr) = CanSeeConsumerGroup hooks (GroupID grp);
          st1 = st\<lparr>g_calls := g_calls st @ [CallCanSeeConsumerGroup (GroupID grp)]\<rparr>
      in case restErr of
           Some e \<Rightarrow> (Some e, st1)
         | None \<Rightarrow>
             if \<not> canSee then groupsLoop hooks rest st1
             else
               (let (actions, restErr) = AllowedConsumerGroupActions hooks (GroupID grp);
                    group' = grp\<lparr>cg_AllowedActions := actions\<rparr>;
                    st2 = st1\<lparr>g_calls :=
                            g_calls st1 @ [CallAllowedConsumerGroupActions (GroupID grp)]\<rparr>
                in case restErr of
                     Some e \<Rightarrow> (Some e, st2)
                   | None \<Rightarrow>
                       groupsLoop hooks rest
                         (st2\<lparr>visibleGroups := visibleGroups st2 @ [group']\<rparr>)))"

text \<open>The handler, given what \<open>api.OwlSvc.GetConsumerGroupsOverview\<close> returned.\<close>

definition handleGetConsumerGroups ::
  "OwlHooks \<Rightarrow> 'a ConsumerGroupOverview_scheme list \<times> error option
    \<Rightarrow> ('a ConsumerGroupOverview_scheme list) outcome \<times> hookCall list" where
  "handleGetConsumerGroups hooks overview =
     (let (describedGroups, err) = overview in
      case err of
        Some e \<Rightarrow>
          (SendRESTError \<lparr>re_Err = Some e, re_Status = StatusInternalServerError,
                          re_Message = ''Could not get consumer groups overview'',
                          re_IsSilent = False\<rparr>, [])
      | None \<Rightarrow>
          (case groupsLoop hooks describedGroups \<lparr>visibleGroups = [], g_calls = []\<rparr> of
             (Some restErr, st) \<Rightarrow> (SendRESTError restErr, g_calls st)
           | (None, st) \<Rightarrow> (SendResponse StatusOK (visibleGroups st), g_calls st)))"

subsection \<open>Auxiliary definitions and sample inputs\<close>

text \<open>
  What the claims say of a response, in the words of the specification: a topic annotated with
  its allowed actions, a topic that the caller can see, a topic on which neither hook fails,
  and the hook calls one topic costs.
\<close>

definition annotateTopic :: "OwlHooks \<Rightarrow> 'a TopicSummary_scheme \<Rightarrow> 'a TopicSummary_scheme" where
  "annotateTopic hooks t = t\<lparr>ts_AllowedActions := fst (AllowedTopicActions hooks (ts_TopicName t))\<rparr>"

definition topicVisible :: "OwlHooks \<Rightarrow> (ptr \<rightharpoonup> 'a TopicSummary_scheme) \<Rightarrow> ptr \<Rightarrow> bool" where
  "topicVisible hooks h p =
     (case h p of None \<Rightarrow> False | Some t \<Rightarrow> fst (CanSeeTopic hooks (ts_TopicName t)))"

definition topicHooksSucceed :: "OwlHooks \<Rightarrow> (ptr \<rightharpoonup> 'a TopicSummary_scheme) \<Rightarrow> ptr \<Rightarrow> bool" where
  "topicHooksSucceed hooks h p =
     (case h p of None \<Rightarrow> False
      | Some t \<Rightarrow> snd (CanSeeTopic hooks (ts_TopicName t)) = None \<and>
                 snd (AllowedTopicActions hooks (ts_TopicName t)) = None)"

definition topicCalls :: "(ptr \<rightharpoonup> 'a TopicSummary_scheme) \<Rightarrow> ptr \<Rightarrow> hookCall list" where
  "topicCalls h p =
     (case h p of None \<Rightarrow> []
      | Some t \<Rightarrow> [CallCanSeeTopic (ts_TopicName t), CallAllowedTopicActions (ts_TopicName t)])"

text \<open>The same for consumer groups.\<close>

definition annotateGroup ::
  "OwlHooks \<Rightarrow> 'a ConsumerGroupOverview_scheme \<Rightarrow> 'a ConsumerGroupOverview_scheme" where
  "annotateGroup hooks g =
     g\<lparr>cg_AllowedActions := fst (AllowedConsumerGroupActions hooks (GroupID g))\<rparr>"

definition groupVisible :: "OwlHooks \<Rightarrow> 'a ConsumerGroupOverview_scheme \<Rightarrow> bool" where
  "groupVisible hooks g = fst (CanSeeConsumerGroup hooks (GroupID g))"

definition groupHooksSucceed :: "OwlHooks \<Rightarrow> 'a ConsumerGroupOverview_scheme \<Rightarrow> bool" where
  "groupHooksSucceed hooks g =
     (snd (CanSeeConsumerGroup hooks (GroupID g)) = None \<and>
      (if groupVisible hooks g
       then snd (AllowedConsumerGroupActions hooks (GroupID g)) = None else True))"

text \<open>
  A policy that hides the topic "secret" and the group "secret-group", and one whose
  \<open>AllowedTopicActions\<close> fails on the hidden topic.
\<close>

definition hookFailure :: restError where
  "hookFailure = \<lparr>re_Err = Some (Err ''policy backend unreachable''), re_Status = 500,
                   re_Message = ''Could not evaluate permissions'', re_IsSilent = False\<rparr>"

definition sampleHooks :: OwlHooks where
  "sampleHooks =
     \<lparr>CanSeeTopic = (\<lambda>name. (name \<noteq> ''secret'', None)),
      AllowedTopicActions = (\<lambda>name. ([''viewMessages''], None)),
      CanSeeConsumerGroup = (\<lambda>name. (name \<noteq> ''secret-group'', None)),
      AllowedConsumerGroupActions =
        (\<lambda>name. if name = ''secret-group'' then ([], Some hookFailure) else ([''all''], None))\<rparr>"

definition failingHooks :: OwlHooks where
  "failingHooks =
     sampleHooks\<lparr>AllowedTopicActions :=
        (\<lambda>name. if name = ''secret'' then ([], Some hookFailure) else ([''viewMessages''], None))\<rparr>"

definition sampleHeap :: "ptr \<rightharpoonup> TopicSummary" where
  "sampleHeap =
     [0 \<mapsto> \<lparr>ts_TopicName = ''orders'', ts_AllowedActions = []\<rparr>,
      1 \<mapsto> \<lparr>ts_TopicName = ''secret'', ts_AllowedActions = []\<rparr>]"

definition sampleGroups :: "ConsumerGroupOverview list" where
  "sampleGroups =
     [\<lparr>GroupID = ''billing'', cg_AllowedActions = []\<rparr>,
      \<lparr>GroupID = ''secret-group'', cg_AllowedActions = []\<rparr>]"

section \<open>Version information (package api, \<open>loadVersionInfo\<close>)\<close>

text \<open>
  A Go function either returns or panics; \<open>go_bind\<close> runs the rest of a function body only
  after a statement that returns.
\<close>

datatype 'a go = Returns 'a | Panics string

definition go_bind :: "'a go \<Rightarrow> ('a \<Rightarrow> 'b go) \<Rightarrow> 'b go" where
  "go_bind m f = (case m of Panics msg \<Rightarrow> Panics msg | Returns x \<Rightarrow> f x)"

text \<open>
  \<open>versionInfo\<close> (src/unnamed/part_003, lines 11-19), with \<open>time.Time\<close> as seconds since the
  Unix epoch; \<open>time.Time{}\<close> is the first second of year 1.
\<close>

record versionInfo =
  gitSha :: string
  gitShaBusiness :: string
  gitRef :: string
  gitRefBusiness :: string
  timestamp :: int

definition zeroTime :: int where
  "zeroTime = - 62135596800"

text \<open>What a \<open>zap.Logger\<close> is asked to write.\<close>

datatype logLevel = InfoLevel | WarnLevel

record logEntry =
  le_level :: logLevel
  le_msg :: string
  le_fields :: "(string \<times> string) list"

text \<open>
  \<open>loadVersionInfo\<close> (lines 21-58). \<open>logger\<close> is what has been logged so far, \<open>getenv\<close> the
  environment; \<open>strconv.ParseInt(\<cdot>, 10, 64)\<close> and \<open>Format(time.RFC3339)\<close> are parameters.
  Line 37 is \<open>panic("todo")\<close>; lines 39-57 follow it.
\<close>

definition loadVersionInfo ::
  "(string \<Rightarrow> int64 \<times> error option) \<Rightarrow> (int \<Rightarrow> string) \<Rightarrow> logEntry list \<Rightarrow> (string \<Rightarrow> string)
    \<Rightarrow> (versionInfo \<times> logEntry list) go" where
  "loadVersionInfo parseInt formatRFC3339 logger getenv =
     (let version = \<lparr>gitSha = getenv ''REACT_APP_KOWL_GIT_SHA'',
                      gitShaBusiness = getenv ''REACT_APP_KOWL_BUSINESS_GIT_SHA'',
                      gitRef = getenv ''REACT_APP_KOWL_GIT_REF'',
                      gitRefBusiness = getenv ''REACT_APP_KOWL_BUSINESS_GIT_REF'',
                      timestamp = zeroTime\<rparr>;
          version = (if gitSha version = [] then version\<lparr>gitSha := ''dev''\<rparr> else version);
          timestamp_env = getenv ''REACT_APP_KOWL_TIMESTAMP''
      in go_bind (Panics ''todo'') (\<lambda>_ :: unit.
           if length (gitSha version) = 0 then
             Returns (version,
               logger @ [\<lparr>le_level = InfoLevel, le_msg = ''started Kowl'',
                          le_fields = [(''version'', ''dev'')]\<rparr>])
           else
             (let (t1, err) = parseInt timestamp_env in
              case err of
                Some e \<Rightarrow>
                  Returns (version,
                    logger @
                      [\<lparr>le_level = WarnLevel, le_msg = ''failed to parse timestamp as int64'',
                        le_fields = [(''timestamp'', timestamp_env), (''error'', Error e)]\<rparr>,
                       \<lparr>le_level = InfoLevel, le_msg = ''started Kowl'',
                        le_fields = [(''version'', gitRef version), (''built'', ''(parsing error)''),
                                  (''git_sha'', gitSha version)]\<rparr>])
              | None \<Rightarrow>
                  (let version = version\<lparr>timestamp := sint t1\<rparr>;
                       timeStr1 = formatRFC3339 (timestamp version)
                   in Returns (version,
                        logger @
                          [\<lparr>le_level = InfoLevel, le_msg = ''started Kowl'',
                            le_fields = [(''version'', gitRef version), (''built'', timeStr1),
                                      (''git_sha'', gitSha version)]\<rparr>])))))"

section \<open>Properties of the log-directory aggregation\<close>

text \<open>
  Each loop writes slot after slot of a preallocated slice while it adds up; what it leaves
  behind is the \<open>map\<close> of its body over the input, next to the sum.
\<close>

lemma partitionLoop_eq:
  "length (Partitions t) = j + length ps \<Longrightarrow>
   partitionLoop j ps t =
     t\<lparr>t_TotalSizeBytes := t_TotalSizeBytes t + sum_list (map rp_Size ps),
       Partitions := take j (Partitions t) @
         map (\<lambda>p. \<lparr>PartitionID = rp_Partition p, OffsetLag = rp_OffsetLag p,
                    SizeBytes = rp_Size p\<rparr>) ps\<rparr>"
proof (induction ps arbitrary: j t)
  case Nil
  then show ?case by simp
next
  case (Cons p ps)
  have "take (Suc j) ((Partitions t)[j := x]) = take j (Partitions t) @ [x]" for x
    using Cons.prems by (simp add: take_Suc_conv_app_nth)
  with Cons show ?case by (simp add: add.assoc)
qed

lemma mkLogDirTopic_eq:
  "mkLogDirTopic topic =
     \<lparr>TopicName = rt_Topic topic,
      t_TotalSizeBytes = sum_list (map rp_Size (rt_Partitions topic)),
      Partitions = map (\<lambda>p. \<lparr>PartitionID = rp_Partition p, OffsetLag = rp_OffsetLag p,
                    SizeBytes = rp_Size p\<rparr>) (rt_Partitions topic)\<rparr>"
  by (simp add: mkLogDirTopic_def partitionLoop_eq)

lemma topicLoop_eq:
  "length (Topics d) = i + length ts \<Longrightarrow>
   topicLoop i ts d =
     d\<lparr>Topics := take i (Topics d) @ map mkLogDirTopic ts,
       d_TotalSizeBytes := d_TotalSizeBytes d + sum_list (map (\<lambda>t. t_TotalSizeBytes (mkLogDirTopic t)) ts),
       d_PartitionCount := d_PartitionCount d + sum_list (map (\<lambda>t. len (Partitions (mkLogDirTopic t))) ts)\<rparr>"
proof (induction ts arbitrary: i d)
  case Nil
  then show ?case by simp
next
  case (Cons p ps)
  have "take (Suc i) ((Topics d)[i := x]) = take i (Topics d) @ [x]" for x
    using Cons.prems by (simp add: take_Suc_conv_app_nth)
  with Cons show ?case by (simp add: add.assoc Let_def)
qed

lemma mkLogDir_error:
  "errorForCode (rd_ErrorCode dir) \<noteq> None \<Longrightarrow>
   mkLogDir errorForCode dir =
     \<lparr>d_Error = errorForCode (rd_ErrorCode dir), AbsolutePath = rd_Dir dir,
      d_TotalSizeBytes = 0, Topics = [], d_PartitionCount = 0\<rparr>"
  by (simp add: mkLogDir_def)

lemma mkLogDir_ok:
  "errorForCode (rd_ErrorCode dir) = None \<Longrightarrow>
   mkLogDir errorForCode dir =
     \<lparr>d_Error = None, AbsolutePath = rd_Dir dir,
      d_TotalSizeBytes = sum_list (map (\<lambda>t. t_TotalSizeBytes (mkLogDirTopic t)) (rd_Topics dir)),
      Topics = map mkLogDirTopic (rd_Topics dir),
      d_PartitionCount = sum_list (map (\<lambda>t. len (Partitions (mkLogDirTopic t))) (rd_Topics dir))\<rparr>"
  by (simp add: mkLogDir_def topicLoop_eq)

lemma mkLogDir_d_Error [simp]: "d_Error (mkLogDir errorForCode dir) = errorForCode (rd_ErrorCode dir)"
  by (cases "errorForCode (rd_ErrorCode dir) = None") (simp_all add: mkLogDir_ok mkLogDir_error)

lemma dirLoop_eq:
  "dirLoop errorForCode dirs b =
     b\<lparr>LogDirs := LogDirs b @ map (mkLogDir errorForCode) dirs,
       b_TotalSizeBytes :=
         b_TotalSizeBytes b + sum_list (map (\<lambda>d. d_TotalSizeBytes (mkLogDir errorForCode d)) dirs),
       TopicCount :=
         TopicCount b + sum_list (map (\<lambda>d. len (Topics (mkLogDir errorForCode d))) dirs),
       b_PartitionCount :=
         b_PartitionCount b + sum_list (map (\<lambda>d. d_PartitionCount (mkLogDir errorForCode d)) dirs)\<rparr>"
proof (induction dirs arbitrary: b)
  case Nil
  then show ?case by simp
next
  case (Cons dir dirs)
  show ?case
  proof (cases "errorForCode (rd_ErrorCode dir) = None")
    case True
    then show ?thesis
      by (simp add: Cons.IH Let_def mkLogDir_def add.assoc)
  next
    case False
    then show ?thesis
      by (simp add: Cons.IH Let_def mkLogDir_def len_def)
  qed
qed

lemma mkBrokerLogDirs_error:
  "r_Error response \<noteq> None \<Longrightarrow>
   mkBrokerLogDirs errorForCode response =
     \<lparr>BrokerMeta = r_BrokerMetadata response, b_Error = r_Error response, LogDirs = [],
      b_TotalSizeBytes = 0, TopicCount = 0, b_PartitionCount = 0\<rparr>"
  by (simp add: mkBrokerLogDirs_def)

lemma mkBrokerLogDirs_ok:
  "r_Error response = None \<Longrightarrow>
   mkBrokerLogDirs errorForCode response =
     \<lparr>BrokerMeta = r_BrokerMetadata response, b_Error = None,
      LogDirs = map (mkLogDir errorForCode) (Dirs (r_LogDirs response)),
      b_TotalSizeBytes =
        sum_list (map (\<lambda>d. d_TotalSizeBytes (mkLogDir errorForCode d)) (Dirs (r_LogDirs response))),
      TopicCount =
        sum_list (map (\<lambda>d. len (Topics (mkLogDir errorForCode d))) (Dirs (r_LogDirs response))),
      b_PartitionCount =
        sum_list (map (\<lambda>d. d_PartitionCount (mkLogDir errorForCode d)) (Dirs (r_LogDirs response)))\<rparr>"
  by (simp add: mkBrokerLogDirs_def dirLoop_eq)

lemma responseLoop_eq:
  "responseLoop errorForCode responses result =
     result ++ map_of (rev (map (\<lambda>r. (NodeID (r_BrokerMetadata r), mkBrokerLogDirs errorForCode r))
                          responses))"
proof (induction responses arbitrary: result)
  case Nil
  then show ?case by simp
next
  case (Cons r rs)
  show ?case by (auto simp: Cons.IH fun_eq_iff map_add_def split: option.splits)
qed

lemma fst_logDirsByBroker:
  "fst (logDirsByBroker errorForCode responses) k =
     map_of (rev (map (\<lambda>r. (NodeID (r_BrokerMetadata r), mkBrokerLogDirs errorForCode r))
                          responses)) k"
  by (simp add: logDirsByBroker_def responseLoop_eq)

lemma entry_from_response:
  assumes "fst (logDirsByBroker errorForCode responses) k = Some b"
  shows "\<exists>r\<in>set responses. NodeID (r_BrokerMetadata r) = k \<and> b = mkBrokerLogDirs errorForCode r"
proof -
  from assms have "(k, b) \<in> set (rev (map (\<lambda>r. (NodeID (r_BrokerMetadata r),
      mkBrokerLogDirs errorForCode r)) responses))"
    unfolding fst_logDirsByBroker by (rule map_of_SomeD)
  then show ?thesis by auto
qed

lemma mkLogDirTopic_additive:
  "t_TotalSizeBytes (mkLogDirTopic t) = sum_list (map SizeBytes (Partitions (mkLogDirTopic t)))"
  by (simp add: mkLogDirTopic_eq comp_def)

lemma mkLogDir_additive:
  "d_TotalSizeBytes (mkLogDir errorForCode d) =
     sum_list (map t_TotalSizeBytes (Topics (mkLogDir errorForCode d)))"
  "d_PartitionCount (mkLogDir errorForCode d) =
     sum_list (map (\<lambda>t. len (Partitions t)) (Topics (mkLogDir errorForCode d)))"
  "t \<in> set (Topics (mkLogDir errorForCode d)) \<Longrightarrow>
     t_TotalSizeBytes t = sum_list (map SizeBytes (Partitions t))"
  by (cases "errorForCode (rd_ErrorCode d) = None";
      auto simp: mkLogDir_ok mkLogDir_error comp_def mkLogDirTopic_additive)+

lemma mkBrokerLogDirs_additive:
  "b_TotalSizeBytes (mkBrokerLogDirs errorForCode r) =
     sum_list (map d_TotalSizeBytes (LogDirs (mkBrokerLogDirs errorForCode r)))"
  "b_PartitionCount (mkBrokerLogDirs errorForCode r) =
     sum_list (map d_PartitionCount (LogDirs (mkBrokerLogDirs errorForCode r)))"
  "TopicCount (mkBrokerLogDirs errorForCode r) =
     sum_list (map (\<lambda>d. len (Topics d)) (LogDirs (mkBrokerLogDirs errorForCode r)))"
  "d \<in> set (LogDirs (mkBrokerLogDirs errorForCode r)) \<Longrightarrow>
     \<exists>dir. d = mkLogDir errorForCode dir"
  by (cases "r_Error r = None";
      auto simp: mkBrokerLogDirs_ok mkBrokerLogDirs_error comp_def)+

text \<open>
  Claim C2 (rollup additivity). Whatever the responses, every entry \<open>b\<close> of the map that
  \<open>logDirsByBroker\<close> returns has: its byte total equal to the sum of its directories' byte
  totals, its partition count equal to the sum of its directories' partition counts, its topic
  count equal to the sum of the lengths of its directories' topic lists; every directory's byte
  total is the sum of its topics' byte totals and its partition count the sum of the lengths of
  its topics' partition lists; every topic's byte total is the sum of its partitions' sizes.
  Sums are Go's: 64-bit, wrapping. The statement holds for entries and directories with an
  error too (their children are empty and their rollups zero).
\<close>

theorem rollup_additivity:
  assumes "fst (logDirsByBroker errorForCode responses) k = Some b"
  shows "b_TotalSizeBytes b = sum_list (map d_TotalSizeBytes (LogDirs b)) \<and>
         b_PartitionCount b = sum_list (map d_PartitionCount (LogDirs b)) \<and>
         TopicCount b = sum_list (map (\<lambda>d. len (Topics d)) (LogDirs b)) \<and>
         (\<forall>d\<in>set (LogDirs b).
            d_TotalSizeBytes d = sum_list (map t_TotalSizeBytes (Topics d)) \<and>
            d_PartitionCount d = sum_list (map (\<lambda>t. len (Partitions t)) (Topics d)) \<and>
            (\<forall>t\<in>set (Topics d).
               t_TotalSizeBytes t = sum_list (map SizeBytes (Partitions t))))"
proof -
  from entry_from_response [OF assms]
  obtain r where b: "b = mkBrokerLogDirs errorForCode r" by blast
  have "d_TotalSizeBytes d = sum_list (map t_TotalSizeBytes (Topics d)) \<and>
        d_PartitionCount d = sum_list (map (\<lambda>t. len (Partitions t)) (Topics d)) \<and>
        (\<forall>t\<in>set (Topics d). t_TotalSizeBytes t = sum_list (map SizeBytes (Partitions t)))"
    if "d \<in> set (LogDirs b)" for d
  proof -
    from that b obtain dir where "d = mkLogDir errorForCode dir"
      using mkBrokerLogDirs_additive(4) by blast
    then show ?thesis using mkLogDir_additive [where errorForCode = errorForCode and d = dir] by blast
  qed
  then show ?thesis
    using mkBrokerLogDirs_additive(1-3) [where errorForCode = errorForCode and r = r] unfolding b by blast
qed

lemma keys_rev_map:
  "map fst (rev (map (\<lambda>r. (NodeID (r_BrokerMetadata r), f r)) rs)) =
   rev (map (\<lambda>r. NodeID (r_BrokerMetadata r)) rs)"
  by (simp add: rev_map comp_def)

lemma lookup_distinct:
  assumes "distinct (map (\<lambda>r. NodeID (r_BrokerMetadata r)) responses)" and "r \<in> set responses"
  shows "fst (logDirsByBroker errorForCode responses) (NodeID (r_BrokerMetadata r)) =
         Some (mkBrokerLogDirs errorForCode r)"
proof -
  have "distinct (map fst (rev (map (\<lambda>r. (NodeID (r_BrokerMetadata r),
      mkBrokerLogDirs errorForCode r)) responses)))"
    using assms(1) by (simp add: keys_rev_map)
  moreover have "(NodeID (r_BrokerMetadata r), mkBrokerLogDirs errorForCode r) \<in>
      set (rev (map (\<lambda>r. (NodeID (r_BrokerMetadata r), mkBrokerLogDirs errorForCode r)) responses))"
    using assms(2) by auto
  ultimately show ?thesis
    unfolding fst_logDirsByBroker by (rule map_of_is_SomeI)
qed

lemma card_dom_distinct:
  assumes "distinct (map (\<lambda>r. NodeID (r_BrokerMetadata r)) responses)"
  shows "card (dom (fst (logDirsByBroker errorForCode responses))) = length responses"
proof -
  have "dom (fst (logDirsByBroker errorForCode responses)) =
        set (map (\<lambda>r. NodeID (r_BrokerMetadata r)) responses)"
    by (auto simp: fst_logDirsByBroker [abs_def] dom_map_of_conv_image_fst image_image)
  then show ?thesis using distinct_card [OF assms] by simp
qed

text \<open>
  Claim C3 (broker-level partial-failure isolation). For responses with pairwise distinct
  broker ids: the overall error is \<open>nil\<close>; the map has as many entries as there are responses;
  a response with a broker-level error is stored under its broker id as an entry with the
  broker's metadata, the error, no directories and all rollups zero; a response without an
  error is stored under its id, and its entry is the one that a run on the error-free responses
  alone stores there.
\<close>

theorem broker_failure_isolation:
  assumes "distinct (map (\<lambda>r. NodeID (r_BrokerMetadata r)) responses)"
  shows "snd (logDirsByBroker errorForCode responses) = None \<and>
         card (dom (fst (logDirsByBroker errorForCode responses))) = length responses \<and>
         (\<forall>r\<in>set responses. r_Error r \<noteq> None \<longrightarrow>
            fst (logDirsByBroker errorForCode responses) (NodeID (r_BrokerMetadata r)) =
              Some \<lparr>BrokerMeta = r_BrokerMetadata r, b_Error = r_Error r, LogDirs = [],
                    b_TotalSizeBytes = 0, TopicCount = 0, b_PartitionCount = 0\<rparr>) \<and>
         (\<forall>r\<in>set responses. r_Error r = None \<longrightarrow>
            fst (logDirsByBroker errorForCode responses) (NodeID (r_BrokerMetadata r)) \<noteq> None \<and>
            fst (logDirsByBroker errorForCode responses) (NodeID (r_BrokerMetadata r)) =
            fst (logDirsByBroker errorForCode (filter (\<lambda>r. r_Error r = None) responses))
              (NodeID (r_BrokerMetadata r)))"
proof -
  have d': "distinct (map (\<lambda>r. NodeID (r_BrokerMetadata r)) (filter (\<lambda>r. r_Error r = None) responses))"
    using assms by (rule distinct_map_filter)
  have "snd (logDirsByBroker errorForCode responses) = None"
    by (simp add: logDirsByBroker_def)
  moreover note card_dom_distinct [OF assms]
  moreover have "\<forall>r\<in>set responses. r_Error r \<noteq> None \<longrightarrow>
            fst (logDirsByBroker errorForCode responses) (NodeID (r_BrokerMetadata r)) =
              Some \<lparr>BrokerMeta = r_BrokerMetadata r, b_Error = r_Error r, LogDirs = [],
                    b_TotalSizeBytes = 0, TopicCount = 0, b_PartitionCount = 0\<rparr>"
    using lookup_distinct [OF assms] by (simp add: mkBrokerLogDirs_error)
  moreover have "\<forall>r\<in>set responses. r_Error r = None \<longrightarrow>
            fst (logDirsByBroker errorForCode responses) (NodeID (r_BrokerMetadata r)) \<noteq> None \<and>
            fst (logDirsByBroker errorForCode responses) (NodeID (r_BrokerMetadata r)) =
            fst (logDirsByBroker errorForCode (filter (\<lambda>r. r_Error r = None) responses))
              (NodeID (r_BrokerMetadata r))"
    using lookup_distinct [OF assms] lookup_distinct [OF d'] by simp
  ultimately show ?thesis by blast
qed

lemma map_of_rev_find:
  "map_of (rev (map (\<lambda>r. (key r, f r)) rs)) k = map_option f (find (\<lambda>r. key r = k) (rev rs))"
proof -
  have "map_of (map (\<lambda>r. (key r, f r)) xs) k = map_option f (find (\<lambda>r. key r = k) xs)" for xs
    by (induction xs) auto
  from this [of "rev rs"] show ?thesis by (simp add: rev_map)
qed

text \<open>
  Claim C5, as amended. \<open>logDirsByBroker\<close> has no check for duplicate broker ids and never
  returns an error: under every broker id the map holds the entry built from the last response
  that carries this id (line 58 or 101 overwrites what an earlier response stored), and no entry
  for an id that no response carries.
\<close>

theorem duplicate_ids_last_wins:
  "snd (logDirsByBroker errorForCode responses) = None \<and>
   fst (logDirsByBroker errorForCode responses) k =
     map_option (mkBrokerLogDirs errorForCode)
       (find (\<lambda>r. NodeID (r_BrokerMetadata r) = k) (rev responses))"
  by (simp add: fst_logDirsByBroker map_of_rev_find) (simp add: logDirsByBroker_def)

lemmas sample_defs = kerrSample_def ordersDir_def brokerMeta_def scenario_def ordersBroker_def
  logDirsByBroker_def mkBrokerLogDirs_def mkLogDirTopic_def Let_def len_def
  zeroLogDirPartition_def zeroLogDirTopic_def

text \<open>
  The scenario's broker 1: directory and topic totals of 250 bytes, two partitions.
\<close>

theorem rollup_additivity_witness:
  "fst (logDirsByBroker kerrSample scenario) 1 = Some (ordersBroker 1) \<and>
   b_TotalSizeBytes (ordersBroker 1) = sum_list (map d_TotalSizeBytes (LogDirs (ordersBroker 1))) \<and>
   b_PartitionCount (ordersBroker 1) = sum_list (map d_PartitionCount (LogDirs (ordersBroker 1))) \<and>
   TopicCount (ordersBroker 1) = sum_list (map (\<lambda>d. len (Topics d)) (LogDirs (ordersBroker 1))) \<and>
   list_all (\<lambda>d.
      d_TotalSizeBytes d = sum_list (map t_TotalSizeBytes (Topics d)) \<and>
      d_PartitionCount d = sum_list (map (\<lambda>t. len (Partitions t)) (Topics d)) \<and>
      list_all (\<lambda>t. t_TotalSizeBytes t = sum_list (map SizeBytes (Partitions t))) (Topics d))
     (LogDirs (ordersBroker 1))"
proof -
  have h: "fst (logDirsByBroker kerrSample scenario) 1 = Some (ordersBroker 1)"
    by (simp add: sample_defs)
  show ?thesis using h rollup_additivity [OF h] by (simp add: list_all_iff)
qed

text \<open>The scenario: three entries, broker 2 with its error.\<close>

theorem broker_failure_isolation_witness:
  "distinct (map (\<lambda>r. NodeID (r_BrokerMetadata r)) scenario) \<and>
   snd (logDirsByBroker kerrSample scenario) = None \<and>
   card (dom (fst (logDirsByBroker kerrSample scenario))) = length scenario \<and>
   list_all (\<lambda>r. r_Error r \<noteq> None \<longrightarrow>
            fst (logDirsByBroker kerrSample scenario) (NodeID (r_BrokerMetadata r)) =
              Some \<lparr>BrokerMeta = r_BrokerMetadata r, b_Error = r_Error r, LogDirs = [],
                    b_TotalSizeBytes = 0, TopicCount = 0, b_PartitionCount = 0\<rparr>) scenario \<and>
   list_all (\<lambda>r. r_Error r = None \<longrightarrow>
            fst (logDirsByBroker kerrSample scenario) (NodeID (r_BrokerMetadata r)) \<noteq> None \<and>
            fst (logDirsByBroker kerrSample scenario) (NodeID (r_BrokerMetadata r)) =
            fst (logDirsByBroker kerrSample (filter (\<lambda>r. r_Error r = None) scenario))
              (NodeID (r_BrokerMetadata r))) scenario"
proof -
  have h: "distinct (map (\<lambda>r. NodeID (r_BrokerMetadata r)) scenario)"
    by (simp add: scenario_def brokerMeta_def)
  show ?thesis using h broker_failure_isolation [OF h, of kerrSample]
    unfolding list_all_iff by (rule conjI)
qed

text \<open>
  Claim C5 as stated fails: two different responses of broker 1 are aggregated without an
  error, and the map keeps only the second.
\<close>

theorem duplicate_ids_counterexample:
  "NodeID (r_BrokerMetadata (duplicated ! 0)) = NodeID (r_BrokerMetadata (duplicated ! 1)) \<and>
   duplicated ! 0 \<noteq> duplicated ! 1 \<and>
   logDirsByBroker kerrSample duplicated =
     ([1 \<mapsto> \<lparr>BrokerMeta = brokerMeta 1, b_Error = None, LogDirs = [],
               b_TotalSizeBytes = 0, TopicCount = 0, b_PartitionCount = 0\<rparr>], None)"
  by (simp add: sample_defs duplicated_def)

lemma b_Error_mkBrokerLogDirs:
  "b_Error (mkBrokerLogDirs errorForCode r) = r_Error r"
  by (cases "r_Error r = None") (simp_all add: mkBrokerLogDirs_ok mkBrokerLogDirs_error)

lemma sum_list_filter_zero:
  fixes f :: "'a \<Rightarrow> 'b::monoid_add"
  assumes "\<And>x. \<not> P x \<Longrightarrow> f x = 0"
  shows "sum_list (map f (filter P xs)) = sum_list (map f xs)"
  by (induction xs) (simp_all add: assms)

lemma filter_ok_LogDirs:
  "filter (\<lambda>d. d_Error d = None) (map (mkLogDir errorForCode) dirs) =
   map (mkLogDir errorForCode) (filter (\<lambda>d. errorForCode (rd_ErrorCode d) = None) dirs)"
  by (simp add: filter_map comp_def)

text \<open>
  Claim C4 (directory-level partial-failure isolation). Let \<open>b\<close> be an entry of the result
  without a broker-level error. It was built from a response \<open>r\<close> of that broker, itself without
  error, and: \<open>b\<close> has one \<open>LogDir\<close> per reported directory, in order; the \<open>LogDir\<close> of a
  directory whose status code \<open>kerr.ErrorForCode\<close> turns into an error carries that error and the
  path, no topics, and zero bytes and partitions; the broker's three rollups are those of the
  same response with the erroring directories left out; and the broker's error-free \<open>LogDir\<close>s
  are exactly the \<open>LogDir\<close>s of that reduced response.
\<close>

theorem directory_failure_isolation:
  assumes "fst (logDirsByBroker errorForCode responses) k = Some b" and "b_Error b = None"
  shows "\<exists>r\<in>set responses. NodeID (r_BrokerMetadata r) = k \<and> r_Error r = None \<and>
     (let dirs = Dirs (r_LogDirs r);
          b' = mkBrokerLogDirs errorForCode
                 (r\<lparr>r_LogDirs := \<lparr>Dirs = filter (\<lambda>d. errorForCode (rd_ErrorCode d) = None) dirs\<rparr>\<rparr>)
      in length (LogDirs b) = length dirs \<and>
         (\<forall>i<length dirs. errorForCode (rd_ErrorCode (dirs ! i)) \<noteq> None \<longrightarrow>
            LogDirs b ! i =
              \<lparr>d_Error = errorForCode (rd_ErrorCode (dirs ! i)), AbsolutePath = rd_Dir (dirs ! i),
               d_TotalSizeBytes = 0, Topics = [], d_PartitionCount = 0\<rparr>) \<and>
         b_TotalSizeBytes b = b_TotalSizeBytes b' \<and>
         TopicCount b = TopicCount b' \<and>
         b_PartitionCount b = b_PartitionCount b' \<and>
         filter (\<lambda>d. d_Error d = None) (LogDirs b) = LogDirs b')"
proof -
  from entry_from_response [OF assms(1)]
  obtain r where r: "r \<in> set responses" "NodeID (r_BrokerMetadata r) = k"
    and b: "b = mkBrokerLogDirs errorForCode r" by blast
  from assms(2) b have ok: "r_Error r = None"
    by (simp add: b_Error_mkBrokerLogDirs)
  define dirs where "dirs = Dirs (r_LogDirs r)"
  define good where "good = filter (\<lambda>d. errorForCode (rd_ErrorCode d) = None) dirs"
  define b' where "b' = mkBrokerLogDirs errorForCode (r\<lparr>r_LogDirs := \<lparr>Dirs = good\<rparr>\<rparr>)"
  have zero: "\<not> errorForCode (rd_ErrorCode d) = None \<Longrightarrow>
      d_TotalSizeBytes (mkLogDir errorForCode d) = 0 \<and>
      len (Topics (mkLogDir errorForCode d)) = 0 \<and>
      d_PartitionCount (mkLogDir errorForCode d) = 0" for d
    by (simp add: mkLogDir_error len_def)
  have bE: "LogDirs b = map (mkLogDir errorForCode) dirs"
    "b_TotalSizeBytes b = sum_list (map (\<lambda>d. d_TotalSizeBytes (mkLogDir errorForCode d)) dirs)"
    "TopicCount b = sum_list (map (\<lambda>d. len (Topics (mkLogDir errorForCode d))) dirs)"
    "b_PartitionCount b = sum_list (map (\<lambda>d. d_PartitionCount (mkLogDir errorForCode d)) dirs)"
    by (simp_all add: b mkBrokerLogDirs_ok [OF ok] dirs_def)
  have b'E: "LogDirs b' = map (mkLogDir errorForCode) good"
    "b_TotalSizeBytes b' = sum_list (map (\<lambda>d. d_TotalSizeBytes (mkLogDir errorForCode d)) good)"
    "TopicCount b' = sum_list (map (\<lambda>d. len (Topics (mkLogDir errorForCode d))) good)"
    "b_PartitionCount b' = sum_list (map (\<lambda>d. d_PartitionCount (mkLogDir errorForCode d)) good)"
    by (simp_all add: b'_def mkBrokerLogDirs_ok ok)
  have 1: "length (LogDirs b) = length dirs" by (simp add: bE)
  have 2: "\<forall>i<length dirs. errorForCode (rd_ErrorCode (dirs ! i)) \<noteq> None \<longrightarrow>
            LogDirs b ! i =
              \<lparr>d_Error = errorForCode (rd_ErrorCode (dirs ! i)), AbsolutePath = rd_Dir (dirs ! i),
               d_TotalSizeBytes = 0, Topics = [], d_PartitionCount = 0\<rparr>"
    by (simp add: bE mkLogDir_error)
  have 3: "b_TotalSizeBytes b = b_TotalSizeBytes b'"
    unfolding bE b'E good_def by (rule sum_list_filter_zero [symmetric]) (simp add: zero)
  have 4: "TopicCount b = TopicCount b'"
    unfolding bE b'E good_def by (rule sum_list_filter_zero [symmetric]) (simp add: zero)
  have 5: "b_PartitionCount b = b_PartitionCount b'"
    unfolding bE b'E good_def by (rule sum_list_filter_zero [symmetric]) (simp add: zero)
  have 6: "filter (\<lambda>d. d_Error d = None) (LogDirs b) = LogDirs b'"
    unfolding bE b'E good_def by (rule filter_ok_LogDirs)
  from 1 2 3 4 5 6 have "let dirs = Dirs (r_LogDirs r);
          b' = mkBrokerLogDirs errorForCode
                 (r\<lparr>r_LogDirs := \<lparr>Dirs = filter (\<lambda>d. errorForCode (rd_ErrorCode d) = None) dirs\<rparr>\<rparr>)
      in length (LogDirs b) = length dirs \<and>
         (\<forall>i<length dirs. errorForCode (rd_ErrorCode (dirs ! i)) \<noteq> None \<longrightarrow>
            LogDirs b ! i =
              \<lparr>d_Error = errorForCode (rd_ErrorCode (dirs ! i)), AbsolutePath = rd_Dir (dirs ! i),
               d_TotalSizeBytes = 0, Topics = [], d_PartitionCount = 0\<rparr>) \<and>
         b_TotalSizeBytes b = b_TotalSizeBytes b' \<and>
         TopicCount b = TopicCount b' \<and>
         b_PartitionCount b = b_PartitionCount b' \<and>
         filter (\<lambda>d. d_Error d = None) (LogDirs b) = LogDirs b'"
    unfolding Let_def b'_def good_def dirs_def by blast
  with r ok show ?thesis by blast
qed

text \<open>
  A broker with a failing and a healthy directory: the rollups are those of the healthy one.
\<close>

theorem directory_failure_isolation_witness:
  "fst (logDirsByBroker kerrSample mixedDirs) 7 = Some mixedBroker \<and> b_Error mixedBroker = None \<and>
   (\<exists>r\<in>set mixedDirs. NodeID (r_BrokerMetadata r) = 7 \<and> r_Error r = None \<and>
     (let dirs = Dirs (r_LogDirs r);
          b' = mkBrokerLogDirs kerrSample
                 (r\<lparr>r_LogDirs := \<lparr>Dirs = filter (\<lambda>d. kerrSample (rd_ErrorCode d) = None) dirs\<rparr>\<rparr>)
      in length (LogDirs mixedBroker) = length dirs \<and>
         (\<forall>i<length dirs. kerrSample (rd_ErrorCode (dirs ! i)) \<noteq> None \<longrightarrow>
            LogDirs mixedBroker ! i =
              \<lparr>d_Error = kerrSample (rd_ErrorCode (dirs ! i)), AbsolutePath = rd_Dir (dirs ! i),
               d_TotalSizeBytes = 0, Topics = [], d_PartitionCount = 0\<rparr>) \<and>
         b_TotalSizeBytes mixedBroker = b_TotalSizeBytes b' \<and>
         TopicCount mixedBroker = TopicCount b' \<and>
         b_PartitionCount mixedBroker = b_PartitionCount b' \<and>
         filter (\<lambda>d. d_Error d = None) (LogDirs mixedBroker) = LogDirs b'))"
proof -
  have h1: "fst (logDirsByBroker kerrSample mixedDirs) 7 = Some mixedBroker"
    by (simp add: sample_defs mixedDirs_def mixedBroker_def failingDir_def)
  have h2: "b_Error mixedBroker = None"
    by (simp add: mixedBroker_def ordersBroker_def)
  from h1 h2 directory_failure_isolation [OF h1 h2] show ?thesis by blast
qed

section \<open>Properties of the reassignment translator\<close>

text \<open>Each \<open>for\<close> statement of the translator is a \<open>map\<close> over its range.\<close>

lemma listPartitionLoop_eq:
  "listPartitionLoop ps acc =
     acc @ map (\<lambda>p. \<lparr>pr_PartitionID = lp_Partition p, AddingReplicas = lp_AddingReplicas p,
                     RemovingReplicas = lp_RemovingReplicas p,
                     Replicas = lp_RemovingReplicas p\<rparr>) ps"
  by (induction ps arbitrary: acc) simp_all

lemma listTopicLoop_eq:
  "listTopicLoop ts acc =
     acc @ map (\<lambda>t. \<lparr>pr_TopicName = lt_Topic t,
                     pr_Partitions = listPartitionLoop (lt_Partitions t) []\<rparr>) ts"
  by (induction ts arbitrary: acc) (simp_all add: Let_def)

lemma alterPartitionLoop_eq:
  "length acc = j + length ps \<Longrightarrow>
   alterPartitionLoop errorForCode j ps acc =
     take j acc @ map (alterPartitionResponse errorForCode) ps"
proof (induction ps arbitrary: j acc)
  case Nil
  then show ?case by simp
next
  case (Cons p ps)
  have "take (Suc j) (acc[j := x]) = take j acc @ [x]" for x
    using Cons.prems by (simp add: take_Suc_conv_app_nth)
  with Cons show ?case by simp
qed

lemma alterTopicLoop_eq:
  "length acc = i + length ts \<Longrightarrow>
   alterTopicLoop errorForCode i ts acc =
     take i acc @ map (\<lambda>t. \<lparr>ar_TopicName = at_Topic t,
        ar_Partitions = map (alterPartitionResponse errorForCode) (at_Partitions t)\<rparr>) ts"
proof (induction ts arbitrary: i acc)
  case Nil
  then show ?case by simp
next
  case (Cons p ps)
  have "take (Suc i) (acc[i := x]) = take i acc @ [x]" for x
    using Cons.prems by (simp add: take_Suc_conv_app_nth)
  with Cons show ?case by (simp add: Let_def alterPartitionLoop_eq)
qed

lemma kerrContract_kerrSample: "kerrContract kerrSample"
  by (simp add: kerrContract_def kerrSample_def)

lemma kerrSample_nil_iff: "\<forall>code. (kerrSample code = None) = (code = 0)"
  by (simp add: kerrSample_def)

text \<open>
  Claim C1 (replicas of a listed reassignment). The claim wants \<open>Replicas\<close> to be the raw
  partition's full replica set, distinct from \<open>RemovingReplicas\<close>. On the specification's own
  round-trip input (adding 4, removing 1, replicas 1, 2, 3, 4) the translation returns
  \<open>Replicas = [1]\<close>, the removing set, while the raw replica set is \<open>[1, 2, 3, 4]\<close>: line 809
  reads \<open>partition.RemovingReplicas\<close> where \<open>partition.Replicas\<close> is meant. (Lemma
  \<open>ListPartitionReassignments_Inr\<close> shows the same for every input.)
\<close>

theorem list_reassignments_replicas_bug:
  "ListPartitionReassignments kerrSample (reassignmentListing, None) =
     Inr [\<lparr>pr_TopicName = ''orders'',
           pr_Partitions = [\<lparr>pr_PartitionID = 0, AddingReplicas = [4], RemovingReplicas = [1],
                             Replicas = [1]\<rparr>]\<rparr>] \<and>
   map (\<lambda>t. map lp_Replicas (lt_Partitions t)) (l_Topics reassignmentListing) = [[[1, 2, 3, 4]]]"
  by (simp add: ListPartitionReassignments_def reassignmentListing_def kerrSample_def)

lemma ListPartitionReassignments_Inr:
  "err = None \<Longrightarrow> errorForCode (l_ErrorCode r) = None \<Longrightarrow>
   ListPartitionReassignments errorForCode (r, err) =
     Inr (map (\<lambda>t. \<lparr>pr_TopicName = lt_Topic t,
        pr_Partitions = map (\<lambda>p. \<lparr>pr_PartitionID = lp_Partition p,
                     AddingReplicas = lp_AddingReplicas p,
                     RemovingReplicas = lp_RemovingReplicas p,
                     Replicas = lp_RemovingReplicas p\<rparr>) (lt_Partitions t)\<rparr>) (l_Topics r))"
  by (simp add: ListPartitionReassignments_def listTopicLoop_eq listPartitionLoop_eq)

lemma ListPartitionReassignments_Inl:
  "err \<noteq> None \<or> errorForCode (l_ErrorCode r) \<noteq> None \<Longrightarrow>
   \<exists>e. ListPartitionReassignments errorForCode (r, err) = Inl e"
  by (auto simp: ListPartitionReassignments_def split: option.splits)

text \<open>
  Claim C6 (list contract). With \<open>kerr.ErrorForCode\<close> returning \<open>nil\<close> for code 0 and for no
  other code: \<open>ListPartitionReassignments\<close> returns an error (and then no result) exactly when
  the cluster call returned an error or the response carries a non-zero error code; otherwise
  it returns one entry per topic of the raw listing, in order, with the topic's name and one
  partition entry per raw partition carrying its partition id.
\<close>

theorem list_reassignments_contract:
  assumes "\<forall>code. (errorForCode code = None) = (code = 0)"
  shows "((\<exists>e. ListPartitionReassignments errorForCode (reassignments, err) = Inl e) =
            (err \<noteq> None \<or> l_ErrorCode reassignments \<noteq> 0)) \<and>
         (err = None \<and> l_ErrorCode reassignments = 0 \<longrightarrow>
            (\<exists>out. ListPartitionReassignments errorForCode (reassignments, err) = Inr out \<and>
               length out = length (l_Topics reassignments) \<and>
               (\<forall>i<length out.
                  pr_TopicName (out ! i) = lt_Topic (l_Topics reassignments ! i) \<and>
                  map pr_PartitionID (pr_Partitions (out ! i)) =
                    map lp_Partition (lt_Partitions (l_Topics reassignments ! i)))))"
proof (rule conjI)
  from assms have c: "(errorForCode code = None) = (code = 0)" for code
    by simp
  show "(\<exists>e. ListPartitionReassignments errorForCode (reassignments, err) = Inl e) =
            (err \<noteq> None \<or> l_ErrorCode reassignments \<noteq> 0)"
  proof (cases "err = None \<and> l_ErrorCode reassignments = 0")
    case True
    then show ?thesis by (simp add: ListPartitionReassignments_Inr c)
  next
    case False
    then have "err \<noteq> None \<or> errorForCode (l_ErrorCode reassignments) \<noteq> None"
      by (simp add: c)
    then have "\<exists>e. ListPartitionReassignments errorForCode (reassignments, err) = Inl e"
      by (rule ListPartitionReassignments_Inl)
    with False show ?thesis by simp
  qed
  show "err = None \<and> l_ErrorCode reassignments = 0 \<longrightarrow>
            (\<exists>out. ListPartitionReassignments errorForCode (reassignments, err) = Inr out \<and>
               length out = length (l_Topics reassignments) \<and>
               (\<forall>i<length out.
                  pr_TopicName (out ! i) = lt_Topic (l_Topics reassignments ! i) \<and>
                  map pr_PartitionID (pr_Partitions (out ! i)) =
                    map lp_Partition (lt_Partitions (l_Topics reassignments ! i))))"
    by (simp add: ListPartitionReassignments_Inr c comp_def)
qed

text \<open>Error code 41 (NOT_CONTROLLER) fails the call; the sample listing is translated.\<close>

theorem list_reassignments_contract_witness:
  "(\<forall>code. (kerrSample code = None) = (code = 0)) \<and>
   (\<exists>e. ListPartitionReassignments kerrSample
          (reassignmentListing\<lparr>l_ErrorCode := 41\<rparr>, None) = Inl e) \<and>
   (\<exists>out. ListPartitionReassignments kerrSample (reassignmentListing, None) = Inr out \<and>
      length out = 1 \<and> pr_TopicName (out ! 0) = ''orders'' \<and>
      map pr_PartitionID (pr_Partitions (out ! 0)) = [0])"
proof -
  note T = list_reassignments_contract [OF kerrSample_nil_iff]
  have 1: "\<exists>e. ListPartitionReassignments kerrSample
          (reassignmentListing\<lparr>l_ErrorCode := 41\<rparr>, None) = Inl e"
    by (rule T [of "reassignmentListing\<lparr>l_ErrorCode := 41\<rparr>" None, THEN conjunct1, THEN iffD2])
      simp
  have "\<exists>out. ListPartitionReassignments kerrSample (reassignmentListing, None) = Inr out \<and>
      length out = length (l_Topics reassignmentListing) \<and>
      (\<forall>i<length out.
        pr_TopicName (out ! i) = lt_Topic (l_Topics reassignmentListing ! i) \<and>
        map pr_PartitionID (pr_Partitions (out ! i)) =
          map lp_Partition (lt_Partitions (l_Topics reassignmentListing ! i)))"
    by (rule T [of reassignmentListing None, THEN conjunct2, THEN mp])
      (simp add: reassignmentListing_def)
  then obtain out where out:
    "ListPartitionReassignments kerrSample (reassignmentListing, None) = Inr out"
    "length out = length (l_Topics reassignmentListing)"
    "\<forall>i<length out.
        pr_TopicName (out ! i) = lt_Topic (l_Topics reassignmentListing ! i) \<and>
        map pr_PartitionID (pr_Partitions (out ! i)) =
          map lp_Partition (lt_Partitions (l_Topics reassignmentListing ! i))"
    by (elim exE conjE)
  from out(2) have len: "length out = 1"
    by (simp add: reassignmentListing_def)
  then have "0 < length out" by simp
  with out(3) have "pr_TopicName (out ! 0) = lt_Topic (l_Topics reassignmentListing ! 0) \<and>
        map pr_PartitionID (pr_Partitions (out ! 0)) =
          map lp_Partition (lt_Partitions (l_Topics reassignmentListing ! 0))"
    by blast
  then have "pr_TopicName (out ! 0) = ''orders'' \<and>
      map pr_PartitionID (pr_Partitions (out ! 0)) = [0]"
    by (simp add: reassignmentListing_def)
  with out(1) len
  have "ListPartitionReassignments kerrSample (reassignmentListing, None) = Inr out \<and>
      length out = 1 \<and> pr_TopicName (out ! 0) = ''orders'' \<and>
      map pr_PartitionID (pr_Partitions (out ! 0)) = [0]"
    by (intro conjI) simp_all
  then
  have 2: "\<exists>out. ListPartitionReassignments kerrSample (reassignmentListing, None) = Inr out \<and>
      length out = 1 \<and> pr_TopicName (out ! 0) = ''orders'' \<and>
      map pr_PartitionID (pr_Partitions (out ! 0)) = [0]"
    by (rule exI)
  from kerrSample_nil_iff 1 2 show ?thesis by (intro conjI)
qed

lemma AlterPartitionAssignments_Inr:
  "kafkaSvc topics = (kRes, None) \<Longrightarrow> errorForCode (a_ErrorCode kRes) = None \<Longrightarrow>
   AlterPartitionAssignments errorForCode kafkaSvc topics =
     Inr (map (\<lambda>t. \<lparr>ar_TopicName = at_Topic t,
        ar_Partitions = map (alterPartitionResponse errorForCode) (at_Partitions t)\<rparr>)
        (a_Topics kRes))"
  by (simp add: AlterPartitionAssignments_def alterTopicLoop_eq)

lemma AlterPartitionAssignments_Inl:
  "kafkaSvc topics = (kRes, err) \<Longrightarrow> err \<noteq> None \<or> errorForCode (a_ErrorCode kRes) \<noteq> None \<Longrightarrow>
   \<exists>e. AlterPartitionAssignments errorForCode kafkaSvc topics = Inl e"
  by (auto simp: AlterPartitionAssignments_def split: option.splits)

lemma alterPartitionResponse_fields:
  "ar_PartitionID (alterPartitionResponse errorForCode p) = ap_Partition p"
  "ErrorMessage (alterPartitionResponse errorForCode p) = ap_ErrorMessage p"
  "kerrContract errorForCode \<Longrightarrow>
     (ErrorCode (alterPartitionResponse errorForCode p) = []) = (ap_ErrorCode p = 0)"
proof -
  show "ar_PartitionID (alterPartitionResponse errorForCode p) = ap_Partition p"
    "ErrorMessage (alterPartitionResponse errorForCode p) = ap_ErrorMessage p"
    by (simp_all add: alterPartitionResponse_def Let_def)
  assume k: "kerrContract errorForCode"
  then have 1: "(errorForCode (ap_ErrorCode p) = None) = (ap_ErrorCode p = 0)"
    by (simp add: kerrContract_def)
  from k have 2: "case errorForCode (ap_ErrorCode p) of None \<Rightarrow> True | Some e \<Rightarrow> Error e \<noteq> []"
    unfolding kerrContract_def by blast
  show "(ErrorCode (alterPartitionResponse errorForCode p) = []) = (ap_ErrorCode p = 0)"
    using 1 2 by (cases "errorForCode (ap_ErrorCode p)") (simp_all add: alterPartitionResponse_def)
qed

text \<open>
  Claim C7 (alter contract). With \<open>kerr.ErrorForCode\<close> as in \<open>kerrContract\<close>, and \<open>kRes\<close>, \<open>err\<close>
  what the cluster call returned: if the call failed or the response carries a non-zero
  top-level code, the result is an error (and no partial result). Otherwise the result has one
  entry per topic of the response, with the topic's name; the entry's partitions are the loop
  body applied to each raw partition on its own (so no partition's error touches another
  partition's entry), each with the raw partition's id and error message, and with an
  \<open>ErrorCode\<close> text that is empty exactly when the raw error code is 0.
\<close>

theorem alter_assignments_contract:
  assumes "kerrContract errorForCode" and "kafkaSvc topics = (kRes, err)"
  shows "(err \<noteq> None \<or> a_ErrorCode kRes \<noteq> 0 \<longrightarrow>
            (\<exists>e. AlterPartitionAssignments errorForCode kafkaSvc topics = Inl e)) \<and>
         (err = None \<and> a_ErrorCode kRes = 0 \<longrightarrow>
            (\<exists>res. AlterPartitionAssignments errorForCode kafkaSvc topics = Inr res \<and>
               length res = length (a_Topics kRes) \<and>
               (\<forall>i<length res.
                  ar_TopicName (res ! i) = at_Topic (a_Topics kRes ! i) \<and>
                  ar_Partitions (res ! i) =
                    map (alterPartitionResponse errorForCode) (at_Partitions (a_Topics kRes ! i)) \<and>
                  (\<forall>j<length (at_Partitions (a_Topics kRes ! i)).
                     ar_PartitionID (ar_Partitions (res ! i) ! j) =
                       ap_Partition (at_Partitions (a_Topics kRes ! i) ! j) \<and>
                     ErrorMessage (ar_Partitions (res ! i) ! j) =
                       ap_ErrorMessage (at_Partitions (a_Topics kRes ! i) ! j) \<and>
                     (ErrorCode (ar_Partitions (res ! i) ! j) = []) =
                       (ap_ErrorCode (at_Partitions (a_Topics kRes ! i) ! j) = 0)))))"
proof (rule conjI)
  from assms(1) have c: "(errorForCode code = None) = (code = 0)" for code
    by (simp add: kerrContract_def)
  show "err \<noteq> None \<or> a_ErrorCode kRes \<noteq> 0 \<longrightarrow>
            (\<exists>e. AlterPartitionAssignments errorForCode kafkaSvc topics = Inl e)"
  proof
    assume "err \<noteq> None \<or> a_ErrorCode kRes \<noteq> 0"
    then have "err \<noteq> None \<or> errorForCode (a_ErrorCode kRes) \<noteq> None"
      by (simp add: c)
    with assms(2) show "\<exists>e. AlterPartitionAssignments errorForCode kafkaSvc topics = Inl e"
      by (rule AlterPartitionAssignments_Inl)
  qed
  show "err = None \<and> a_ErrorCode kRes = 0 \<longrightarrow>
            (\<exists>res. AlterPartitionAssignments errorForCode kafkaSvc topics = Inr res \<and>
               length res = length (a_Topics kRes) \<and>
               (\<forall>i<length res.
                  ar_TopicName (res ! i) = at_Topic (a_Topics kRes ! i) \<and>
                  ar_Partitions (res ! i) =
                    map (alterPartitionResponse errorForCode) (at_Partitions (a_Topics kRes ! i)) \<and>
                  (\<forall>j<length (at_Partitions (a_Topics kRes ! i)).
                     ar_PartitionID (ar_Partitions (res ! i) ! j) =
                       ap_Partition (at_Partitions (a_Topics kRes ! i) ! j) \<and>
                     ErrorMessage (ar_Partitions (res ! i) ! j) =
                       ap_ErrorMessage (at_Partitions (a_Topics kRes ! i) ! j) \<and>
                     (ErrorCode (ar_Partitions (res ! i) ! j) = []) =
                       (ap_ErrorCode (at_Partitions (a_Topics kRes ! i) ! j) = 0))))"
  proof
    assume "err = None \<and> a_ErrorCode kRes = 0"
    then have "errorForCode (a_ErrorCode kRes) = None" "kafkaSvc topics = (kRes, None)"
      using assms(2) by (simp_all add: c)
    then have "AlterPartitionAssignments errorForCode kafkaSvc topics =
     Inr (map (\<lambda>t. \<lparr>ar_TopicName = at_Topic t,
        ar_Partitions = map (alterPartitionResponse errorForCode) (at_Partitions t)\<rparr>)
        (a_Topics kRes))"
      by (simp add: AlterPartitionAssignments_Inr)
    then show "\<exists>res. AlterPartitionAssignments errorForCode kafkaSvc topics = Inr res \<and>
               length res = length (a_Topics kRes) \<and>
               (\<forall>i<length res.
                  ar_TopicName (res ! i) = at_Topic (a_Topics kRes ! i) \<and>
                  ar_Partitions (res ! i) =
                    map (alterPartitionResponse errorForCode) (at_Partitions (a_Topics kRes ! i)) \<and>
                  (\<forall>j<length (at_Partitions (a_Topics kRes ! i)).
                     ar_PartitionID (ar_Partitions (res ! i) ! j) =
                       ap_Partition (at_Partitions (a_Topics kRes ! i) ! j) \<and>
                     ErrorMessage (ar_Partitions (res ! i) ! j) =
                       ap_ErrorMessage (at_Partitions (a_Topics kRes ! i) ! j) \<and>
                     (ErrorCode (ar_Partitions (res ! i) ! j) = []) =
                       (ap_ErrorCode (at_Partitions (a_Topics kRes ! i) ! j) = 0)))"
      by (simp add: alterPartitionResponse_fields(3) [OF assms(1)] alterPartitionResponse_fields(1,2))
  qed
qed

text \<open>
  A failed call gives an error; in a successful call partition 1 is rejected and partition 0,
  next to it, is reported as accepted.
\<close>

theorem alter_assignments_contract_witness:
  "kerrContract kerrSample \<and>
   (\<exists>e. AlterPartitionAssignments kerrSample
          (\<lambda>topics. (alterResult, Some (Err ''broker unreachable''))) alterRequest = Inl e) \<and>
   (\<exists>res. AlterPartitionAssignments kerrSample (\<lambda>topics. (alterResult, None)) alterRequest =
        Inr res \<and>
      length res = 1 \<and> ar_TopicName (res ! 0) = ''orders'' \<and>
      ar_Partitions (res ! 0) =
        [\<lparr>ar_PartitionID = 0, ErrorCode = [], ErrorMessage = None\<rparr>,
         \<lparr>ar_PartitionID = 1, ErrorCode = ''UNKNOWN_SERVER_ERROR'',
          ErrorMessage = Some ''replica 9 is not a broker''\<rparr>])"
proof -
  note k = kerrContract_kerrSample
  have 1: "\<exists>e. AlterPartitionAssignments kerrSample
          (\<lambda>topics. (alterResult, Some (Err ''broker unreachable''))) alterRequest = Inl e"
    by (rule alter_assignments_contract [OF k, where kRes = alterResult
          and err = "Some (Err ''broker unreachable'')", THEN conjunct1, THEN mp]) simp_all
  have "\<exists>res. AlterPartitionAssignments kerrSample (\<lambda>topics. (alterResult, None)) alterRequest =
        Inr res \<and>
      length res = length (a_Topics alterResult) \<and>
      (\<forall>i<length res.
         ar_TopicName (res ! i) = at_Topic (a_Topics alterResult ! i) \<and>
         ar_Partitions (res ! i) =
           map (alterPartitionResponse kerrSample) (at_Partitions (a_Topics alterResult ! i)) \<and>
         (\<forall>j<length (at_Partitions (a_Topics alterResult ! i)).
            ar_PartitionID (ar_Partitions (res ! i) ! j) =
              ap_Partition (at_Partitions (a_Topics alterResult ! i) ! j) \<and>
            ErrorMessage (ar_Partitions (res ! i) ! j) =
              ap_ErrorMessage (at_Partitions (a_Topics alterResult ! i) ! j) \<and>
            (ErrorCode (ar_Partitions (res ! i) ! j) = []) =
              (ap_ErrorCode (at_Partitions (a_Topics alterResult ! i) ! j) = 0)))"
    by (rule alter_assignments_contract [OF k, where kRes = alterResult and err = None,
          THEN conjunct2, THEN mp]) (simp_all add: alterResult_def)
  then obtain res where res:
    "AlterPartitionAssignments kerrSample (\<lambda>topics. (alterResult, None)) alterRequest = Inr res"
    "length res = length (a_Topics alterResult)"
    "\<forall>i<length res.
         ar_TopicName (res ! i) = at_Topic (a_Topics alterResult ! i) \<and>
         ar_Partitions (res ! i) =
           map (alterPartitionResponse kerrSample) (at_Partitions (a_Topics alterResult ! i)) \<and>
         (\<forall>j<length (at_Partitions (a_Topics alterResult ! i)).
            ar_PartitionID (ar_Partitions (res ! i) ! j) =
              ap_Partition (at_Partitions (a_Topics alterResult ! i) ! j) \<and>
            ErrorMessage (ar_Partitions (res ! i) ! j) =
              ap_ErrorMessage (at_Partitions (a_Topics alterResult ! i) ! j) \<and>
            (ErrorCode (ar_Partitions (res ! i) ! j) = []) =
              (ap_ErrorCode (at_Partitions (a_Topics alterResult ! i) ! j) = 0))"
    by (elim exE conjE)
  from res(2) have len: "length res = 1" by (simp add: alterResult_def)
  then have pos: "0 < length res" by simp
  note at0 = res(3) [rule_format, OF pos]
  from at0 [THEN conjunct1] at0 [THEN conjunct2, THEN conjunct1]
  have "ar_TopicName (res ! 0) = at_Topic (a_Topics alterResult ! 0) \<and>
         ar_Partitions (res ! 0) =
           map (alterPartitionResponse kerrSample) (at_Partitions (a_Topics alterResult ! 0))"
    by (rule conjI)
  then have f: "ar_TopicName (res ! 0) = ''orders''"
      "ar_Partitions (res ! 0) =
        [\<lparr>ar_PartitionID = 0, ErrorCode = [], ErrorMessage = None\<rparr>,
         \<lparr>ar_PartitionID = 1, ErrorCode = ''UNKNOWN_SERVER_ERROR'',
          ErrorMessage = Some ''replica 9 is not a broker''\<rparr>]"
    by (simp_all add: alterResult_def alterPartitionResponse_def kerrSample_def)
  have 2: "\<exists>res. AlterPartitionAssignments kerrSample (\<lambda>topics. (alterResult, None)) alterRequest =
        Inr res \<and>
      length res = 1 \<and> ar_TopicName (res ! 0) = ''orders'' \<and>
      ar_Partitions (res ! 0) =
        [\<lparr>ar_PartitionID = 0, ErrorCode = [], ErrorMessage = None\<rparr>,
         \<lparr>ar_PartitionID = 1, ErrorCode = ''UNKNOWN_SERVER_ERROR'',
          ErrorMessage = Some ''replica 9 is not a broker''\<rparr>]"
  proof (intro exI conjI)
    show "AlterPartitionAssignments kerrSample (\<lambda>topics. (alterResult, None)) alterRequest =
        Inr res" by (rule res(1))
    show "length res = 1" by (rule len)
    show "ar_TopicName (res ! 0) = ''orders''" by (rule f(1))
    show "ar_Partitions (res ! 0) =
        [\<lparr>ar_PartitionID = 0, ErrorCode = [], ErrorMessage = None\<rparr>,
         \<lparr>ar_PartitionID = 1, ErrorCode = ''UNKNOWN_SERVER_ERROR'',
          ErrorMessage = Some ''replica 9 is not a broker''\<rparr>]" by (rule f(2))
  qed
  from k 1 2 show ?thesis by (intro conjI)
qed

section \<open>Properties of the handlers\<close>

text \<open>The loop of \<open>handleGetTopics\<close>, one pass at a time.\<close>

lemma annotateTopic_simps [simp]:
  "ts_TopicName (annotateTopic hooks t) = ts_TopicName t"
  "annotateTopic hooks (annotateTopic hooks t) = annotateTopic hooks t"
  "ts_AllowedActions (annotateTopic hooks t) = fst (AllowedTopicActions hooks (ts_TopicName t))"
  by (simp_all add: annotateTopic_def)

lemma upd_annotate:
  assumes "h p = Some t"
  shows "topicVisible hooks (h(p \<mapsto> annotateTopic hooks t)) q = topicVisible hooks h q"
    "topicHooksSucceed hooks (h(p \<mapsto> annotateTopic hooks t)) q = topicHooksSucceed hooks h q"
    "topicCalls (h(p \<mapsto> annotateTopic hooks t)) q = topicCalls h q"
  using assms by (simp_all add: topicVisible_def topicHooksSucceed_def topicCalls_def)

lemma upd_annotate_if:
  assumes "h p = Some t"
  shows "topicVisible hooks (\<lambda>a. if a = p then Some (annotateTopic hooks t) else h a) q =
           topicVisible hooks h q"
    "topicHooksSucceed hooks (\<lambda>a. if a = p then Some (annotateTopic hooks t) else h a) q =
       topicHooksSucceed hooks h q"
    "topicCalls (\<lambda>a. if a = p then Some (annotateTopic hooks t) else h a) q = topicCalls h q"
  using assms by (simp_all add: topicVisible_def topicHooksSucceed_def topicCalls_def)

lemma topicsLoop_step:
  assumes "h p = Some t" "snd (CanSeeTopic hooks (ts_TopicName t)) = None"
    "snd (AllowedTopicActions hooks (ts_TopicName t)) = None"
  shows "topicsLoop hooks (p # rest) \<lparr>visibleTopics = v, heap = h, t_calls = c\<rparr> =
     topicsLoop hooks rest
       \<lparr>visibleTopics = v @ (if topicVisible hooks h p then [p] else []),
        heap = h(p \<mapsto> annotateTopic hooks t),
        t_calls = c @ topicCalls h p\<rparr>"
  using assms
  by (cases "CanSeeTopic hooks (ts_TopicName t)"; cases "AllowedTopicActions hooks (ts_TopicName t)")
     (simp add: topicVisible_def topicCalls_def annotateTopic_def)

lemma topicsLoop_abort:
  assumes "\<not> topicHooksSucceed hooks (heap st) p"
  shows "fst (topicsLoop hooks (p # rest) st) \<noteq> None"
  using assms
  by (cases "heap st p")
     (auto simp: topicHooksSucceed_def Let_def split: prod.splits option.splits)

lemma topicsLoop_None_iff:
  "(fst (topicsLoop hooks topics st) = None) = (\<forall>p\<in>set topics. topicHooksSucceed hooks (heap st) p)"
proof (induction topics arbitrary: st)
  case Nil
  then show ?case by simp
next
  case (Cons p rest)
  show ?case
  proof (cases "topicHooksSucceed hooks (heap st) p")
    case False
    with topicsLoop_abort [OF False] show ?thesis by auto
  next
    case True
    obtain v h c where st: "st = \<lparr>visibleTopics = v, heap = h, t_calls = c\<rparr>"
      by (cases st) simp
    from True obtain t where t: "h p = Some t" "snd (CanSeeTopic hooks (ts_TopicName t)) = None"
      "snd (AllowedTopicActions hooks (ts_TopicName t)) = None"
      by (auto simp: st topicHooksSucceed_def split: option.splits)
    show ?thesis
      using True unfolding st topicsLoop_step [where h = h and p = p, OF t]
      by (simp add: Cons.IH upd_annotate [where h = h and p = p, OF t(1)]
        upd_annotate_if [where h = h and p = p, OF t(1)])
  qed
qed

lemma topicsLoop_success:
  assumes "topicsLoop hooks topics st = (None, st')"
  shows "visibleTopics st' = visibleTopics st @ filter (topicVisible hooks (heap st)) topics \<and>
         heap st' = (\<lambda>p. if p \<in> set topics then map_option (annotateTopic hooks) (heap st p)
                          else heap st p) \<and>
         t_calls st' = t_calls st @ concat (map (topicCalls (heap st)) topics)"
  using assms
proof (induction topics arbitrary: st)
  case Nil
  then show ?case by simp
next
  case (Cons p rest)
  obtain v h c where st: "st = \<lparr>visibleTopics = v, heap = h, t_calls = c\<rparr>"
    by (cases st) simp
  from Cons.prems have "fst (topicsLoop hooks (p # rest) st) = None" by simp
  then have "topicHooksSucceed hooks (heap st) p"
    unfolding topicsLoop_None_iff by simp
  then obtain t where t: "h p = Some t" "snd (CanSeeTopic hooks (ts_TopicName t)) = None"
    "snd (AllowedTopicActions hooks (ts_TopicName t)) = None"
    by (auto simp: st topicHooksSucceed_def split: option.splits)
  let ?st = "\<lparr>visibleTopics = v @ (if topicVisible hooks h p then [p] else []),
        heap = h(p \<mapsto> annotateTopic hooks t),
        t_calls = c @ topicCalls h p\<rparr>"
  from Cons.prems have "topicsLoop hooks rest ?st = (None, st')"
    unfolding st topicsLoop_step [where h = h and p = p, OF t] .
  note IH = Cons.IH [OF this]
  from IH have "visibleTopics st' = visibleTopics st @ filter (topicVisible hooks (heap st)) (p # rest)"
    by (simp add: st upd_annotate [where h = h and p = p, OF t(1)]
        upd_annotate_if [where h = h and p = p, OF t(1)])
  moreover
  from IH have "t_calls st' = t_calls st @ concat (map (topicCalls (heap st)) (p # rest))"
    by (simp add: st upd_annotate [where h = h and p = p, OF t(1)]
        upd_annotate_if [where h = h and p = p, OF t(1)])
  moreover
  from IH have h: "heap st' = (\<lambda>q. if q \<in> set rest
        then map_option (annotateTopic hooks) (heap ?st q) else heap ?st q)"
    by blast
  have "heap st' q = (if q \<in> set (p # rest)
      then map_option (annotateTopic hooks) (heap st q) else heap st q)" for q
    unfolding h using t(1) by (cases "q = p") (simp_all add: st)
  ultimately show ?case by (simp add: fun_eq_iff)
qed

text \<open>The loop of \<open>handleGetConsumerGroups\<close>.\<close>

lemma groupsLoop_step:
  assumes "groupHooksSucceed hooks g"
  shows "groupsLoop hooks (g # rest) \<lparr>visibleGroups = v, g_calls = c\<rparr> =
     groupsLoop hooks rest
       \<lparr>visibleGroups = v @ (if groupVisible hooks g then [annotateGroup hooks g] else []),
        g_calls = c @ CallCanSeeConsumerGroup (GroupID g) #
          (if groupVisible hooks g then [CallAllowedConsumerGroupActions (GroupID g)] else [])\<rparr>"
  using assms
  by (cases "CanSeeConsumerGroup hooks (GroupID g)";
      cases "AllowedConsumerGroupActions hooks (GroupID g)")
     (auto simp: groupHooksSucceed_def groupVisible_def annotateGroup_def Let_def split: if_splits)

lemma groupsLoop_abort:
  assumes "\<not> groupHooksSucceed hooks g"
  shows "fst (groupsLoop hooks (g # rest) st) \<noteq> None"
  using assms
  by (auto simp: groupHooksSucceed_def groupVisible_def Let_def split: prod.splits option.splits)

lemma groupsLoop_None_iff:
  "(fst (groupsLoop hooks gs st) = None) = (\<forall>g\<in>set gs. groupHooksSucceed hooks g)"
proof (induction gs arbitrary: st)
  case Nil
  then show ?case by simp
next
  case (Cons g rest)
  show ?case
  proof (cases "groupHooksSucceed hooks g")
    case False
    with groupsLoop_abort [OF False] show ?thesis by auto
  next
    case True
    obtain v c where st: "st = \<lparr>visibleGroups = v, g_calls = c\<rparr>"
      by (cases st) simp
    show ?thesis
      using True unfolding st groupsLoop_step [OF True] by (simp add: Cons.IH)
  qed
qed

lemma groupsLoop_success:
  assumes "groupsLoop hooks gs st = (None, st')"
  shows "visibleGroups st' =
           visibleGroups st @ map (annotateGroup hooks) (filter (groupVisible hooks) gs)"
  using assms
proof (induction gs arbitrary: st)
  case Nil
  then show ?case by simp
next
  case (Cons g rest)
  obtain v c where st: "st = \<lparr>visibleGroups = v, g_calls = c\<rparr>"
    by (cases st) simp
  from Cons.prems have "fst (groupsLoop hooks (g # rest) st) = None" by simp
  then have ok: "groupHooksSucceed hooks g"
    unfolding groupsLoop_None_iff by simp
  from Cons.prems have "groupsLoop hooks rest
       \<lparr>visibleGroups = v @ (if groupVisible hooks g then [annotateGroup hooks g] else []),
        g_calls = c @ CallCanSeeConsumerGroup (GroupID g) #
          (if groupVisible hooks g then [CallAllowedConsumerGroupActions (GroupID g)] else [])\<rparr>
      = (None, st')"
    unfolding st groupsLoop_step [OF ok] .
  from Cons.IH [OF this] show ?case by (simp add: st)
qed

lemma groupsLoop_calls:
  assumes "CallAllowedConsumerGroupActions n \<in> set (g_calls (snd (groupsLoop hooks gs st)))"
  shows "CallAllowedConsumerGroupActions n \<in> set (g_calls st) \<or>
         (\<exists>g\<in>set gs. GroupID g = n \<and> groupVisible hooks g)"
  using assms
proof (induction gs arbitrary: st)
  case Nil
  then show ?case by simp
next
  case (Cons g rest)
  obtain canSee e1 where c: "CanSeeConsumerGroup hooks (GroupID g) = (canSee, e1)"
    by (cases "CanSeeConsumerGroup hooks (GroupID g)")
  obtain actions e2 where a: "AllowedConsumerGroupActions hooks (GroupID g) = (actions, e2)"
    by (cases "AllowedConsumerGroupActions hooks (GroupID g)")
  show ?case
  proof (cases "e1 = None")
    case False
    with Cons.prems c show ?thesis by auto
  next
    case e1: True
    show ?thesis
    proof (cases canSee)
      case False
      with Cons.prems c e1 have "CallAllowedConsumerGroupActions n \<in> set (g_calls (snd
          (groupsLoop hooks rest (st\<lparr>g_calls := g_calls st @ [CallCanSeeConsumerGroup (GroupID g)]\<rparr>))))"
        by simp
      from Cons.IH [OF this] show ?thesis by auto
    next
      case True
      then have vis: "groupVisible hooks g" by (simp add: groupVisible_def c)
      show ?thesis
      proof (cases "e2 = None")
        case False
        with Cons.prems c a e1 True vis show ?thesis by auto
      next
        case e2: True
        with Cons.prems c a e1 True
        have "CallAllowedConsumerGroupActions n \<in> set (g_calls (snd
          (groupsLoop hooks rest
             (st\<lparr>g_calls := g_calls st @ [CallCanSeeConsumerGroup (GroupID g)] @
                     [CallAllowedConsumerGroupActions (GroupID g)],
                  visibleGroups := visibleGroups st @ [g\<lparr>cg_AllowedActions := actions\<rparr>]\<rparr>))))"
          by simp
        from Cons.IH [OF this] vis show ?thesis by auto
      qed
    qed
  qed
qed

text \<open>The handlers.\<close>

lemma handleGetTopics_cases:
  "handleGetTopics hooks (topics, None) heap0 =
     (case topicsLoop hooks topics \<lparr>visibleTopics = [], heap = heap0, t_calls = []\<rparr> of
        (Some abort, st) \<Rightarrow> (abort, st)
      | (None, st) \<Rightarrow> (SendResponse StatusOK (map (heap st) (visibleTopics st)), st))"
  by (simp add: handleGetTopics_def)

lemma topicsLoop_abort_outcome:
  "fst (topicsLoop hooks topics st) = Some (SendResponse status resp) \<Longrightarrow> False"
proof (induction topics arbitrary: st)
  case Nil
  then show ?case by simp
next
  case (Cons p rest)
  then show ?case
    by (auto simp: Let_def split: option.splits prod.splits if_splits)
qed

lemma handleGetTopics_success:
  assumes "fst (handleGetTopics hooks (topics, None) heap0) = SendResponse status resp"
  shows "status = StatusOK"
    "resp = map (\<lambda>p. map_option (annotateTopic hooks) (heap0 p))
              (filter (topicVisible hooks heap0) topics)"
    "\<forall>p\<in>set topics. topicHooksSucceed hooks heap0 p"
    "heap (snd (handleGetTopics hooks (topics, None) heap0)) =
       (\<lambda>p. if p \<in> set topics then map_option (annotateTopic hooks) (heap0 p) else heap0 p)"
    "t_calls (snd (handleGetTopics hooks (topics, None) heap0)) =
       concat (map (topicCalls heap0) topics)"
proof -
  let ?st0 = "\<lparr>visibleTopics = [], heap = heap0, t_calls = []\<rparr>"
  obtain ab st where loop: "topicsLoop hooks topics ?st0 = (ab, st)"
    by (cases "topicsLoop hooks topics ?st0")
  have "ab = None"
  proof (cases ab)
    case (Some a)
    with assms loop have "a = SendResponse status resp"
      by (simp add: handleGetTopics_cases)
    with Some loop topicsLoop_abort_outcome [of hooks topics ?st0 status resp]
    show ?thesis by simp
  qed simp
  with loop have l: "topicsLoop hooks topics ?st0 = (None, st)" by simp
  from topicsLoop_success [OF l]
  have v: "visibleTopics st = filter (topicVisible hooks heap0) topics"
    and h: "heap st = (\<lambda>p. if p \<in> set topics then map_option (annotateTopic hooks) (heap0 p)
                          else heap0 p)"
    and c: "t_calls st = concat (map (topicCalls heap0) topics)"
    by (simp_all cong: if_cong)
  from assms l show "status = StatusOK"
    by (simp add: handleGetTopics_cases)
  from assms l have "resp = map (heap st) (visibleTopics st)"
    by (simp add: handleGetTopics_cases)
  then show "resp = map (\<lambda>p. map_option (annotateTopic hooks) (heap0 p))
              (filter (topicVisible hooks heap0) topics)"
    unfolding v h by simp
  from l have "fst (topicsLoop hooks topics ?st0) = None" by simp
  then show "\<forall>p\<in>set topics. topicHooksSucceed hooks heap0 p"
    unfolding topicsLoop_None_iff by simp
  from l h show "heap (snd (handleGetTopics hooks (topics, None) heap0)) =
       (\<lambda>p. if p \<in> set topics then map_option (annotateTopic hooks) (heap0 p) else heap0 p)"
    by (simp add: handleGetTopics_cases)
  from l c show "t_calls (snd (handleGetTopics hooks (topics, None) heap0)) =
       concat (map (topicCalls heap0) topics)"
    by (simp add: handleGetTopics_cases)
qed

lemma handleGetTopics_ok:
  assumes "\<forall>p\<in>set topics. topicHooksSucceed hooks heap0 p"
  shows "\<exists>resp. fst (handleGetTopics hooks (topics, None) heap0) = SendResponse StatusOK resp"
proof -
  let ?st0 = "\<lparr>visibleTopics = [], heap = heap0, t_calls = []\<rparr>"
  from assms have "fst (topicsLoop hooks topics ?st0) = None"
    unfolding topicsLoop_None_iff by simp
  then obtain st where "topicsLoop hooks topics ?st0 = (None, st)"
    by (cases "topicsLoop hooks topics ?st0") simp
  then show ?thesis by (simp add: handleGetTopics_cases)
qed

lemma handleGetConsumerGroups_cases:
  "handleGetConsumerGroups hooks (groups, None) =
     (case groupsLoop hooks groups \<lparr>visibleGroups = [], g_calls = []\<rparr> of
        (Some restErr, st) \<Rightarrow> (SendRESTError restErr, g_calls st)
      | (None, st) \<Rightarrow> (SendResponse StatusOK (visibleGroups st), g_calls st))"
  by (simp add: handleGetConsumerGroups_def)

lemma handleGetConsumerGroups_success:
  assumes "fst (handleGetConsumerGroups hooks (groups, None)) = SendResponse status resp"
  shows "status = StatusOK \<and>
         resp = map (annotateGroup hooks) (filter (groupVisible hooks) groups) \<and>
         (\<forall>g\<in>set groups. groupHooksSucceed hooks g)"
proof -
  let ?st0 = "\<lparr>visibleGroups = [], g_calls = []\<rparr> :: 'a groupsState"
  obtain ab st where loop: "groupsLoop hooks groups ?st0 = (ab, st)"
    by (cases "groupsLoop hooks groups ?st0")
  with assms have "ab = None"
    by (cases ab) (simp_all add: handleGetConsumerGroups_cases)
  with loop have l: "groupsLoop hooks groups ?st0 = (None, st)" by simp
  from l have "fst (groupsLoop hooks groups ?st0) = None" by simp
  then have "\<forall>g\<in>set groups. groupHooksSucceed hooks g"
    unfolding groupsLoop_None_iff .
  with groupsLoop_success [OF l] assms l show ?thesis
    by (simp add: handleGetConsumerGroups_cases)
qed

lemma handleGetConsumerGroups_ok:
  assumes "\<forall>g\<in>set groups. groupHooksSucceed hooks g"
  shows "\<exists>resp. fst (handleGetConsumerGroups hooks (groups, None)) = SendResponse StatusOK resp"
proof -
  let ?st0 = "\<lparr>visibleGroups = [], g_calls = []\<rparr> :: 'a groupsState"
  from assms have "fst (groupsLoop hooks groups ?st0) = None"
    unfolding groupsLoop_None_iff by simp
  then obtain st where "groupsLoop hooks groups ?st0 = (None, st)"
    by (cases "groupsLoop hooks groups ?st0") simp
  then show ?thesis by (simp add: handleGetConsumerGroups_cases)
qed

text \<open>
  Claim C8 (authorization denial is not an error). For the topics overview: a response that
  \<open>handleGetTopics\<close> sends has status 200 and holds exactly the topics that \<open>CanSeeTopic\<close>
  admits, in order, each with the allowed actions that \<open>AllowedTopicActions\<close> gives for it; a
  topic that \<open>CanSeeTopic\<close> denies is absent. The handler sends such a response exactly when
  no hook call fails on a topic of the overview (and no pointer is \<open>nil\<close>): a denial is no
  failure. The same for the consumer-group overview with \<open>CanSeeConsumerGroup\<close> and
  \<open>AllowedConsumerGroupActions\<close>, where a hook call fails on a group when \<open>CanSeeConsumerGroup\<close>
  fails or the group is visible and \<open>AllowedConsumerGroupActions\<close> fails.
\<close>

theorem authorization_denial_omits:
  "(fst (handleGetTopics hooks (topics, None) heap0) = SendResponse status resp \<longrightarrow>
      status = StatusOK \<and>
      resp = map (\<lambda>p. map_option (annotateTopic hooks) (heap0 p))
               (filter (topicVisible hooks heap0) topics) \<and>
      (\<forall>p\<in>set topics. heap0 p \<noteq> None)) \<and>
   ((\<exists>resp. fst (handleGetTopics hooks (topics, None) heap0) = SendResponse StatusOK resp) =
      (\<forall>p\<in>set topics. topicHooksSucceed hooks heap0 p)) \<and>
   (fst (handleGetConsumerGroups hooks (groups, None)) = SendResponse status' resp' \<longrightarrow>
      status' = StatusOK \<and>
      resp' = map (annotateGroup hooks) (filter (groupVisible hooks) groups)) \<and>
   ((\<exists>resp'. fst (handleGetConsumerGroups hooks (groups, None)) = SendResponse StatusOK resp') =
      (\<forall>g\<in>set groups. groupHooksSucceed hooks g))"
proof (intro conjI impI iffI)
  assume a: "fst (handleGetTopics hooks (topics, None) heap0) = SendResponse status resp"
  from handleGetTopics_success(1) [OF a] show "status = StatusOK" .
  from handleGetTopics_success(2) [OF a]
  show "resp = map (\<lambda>p. map_option (annotateTopic hooks) (heap0 p))
               (filter (topicVisible hooks heap0) topics)" .
  from handleGetTopics_success(3) [OF a] show "\<forall>p\<in>set topics. heap0 p \<noteq> None"
    by (auto simp: topicHooksSucceed_def split: option.splits)
next
  assume "\<exists>resp. fst (handleGetTopics hooks (topics, None) heap0) = SendResponse StatusOK resp"
  then obtain resp0 where
    "fst (handleGetTopics hooks (topics, None) heap0) = SendResponse StatusOK resp0" ..
  then show "\<forall>p\<in>set topics. topicHooksSucceed hooks heap0 p"
    by (rule handleGetTopics_success(3))
next
  assume "\<forall>p\<in>set topics. topicHooksSucceed hooks heap0 p"
  then show "\<exists>resp. fst (handleGetTopics hooks (topics, None) heap0) = SendResponse StatusOK resp"
    by (rule handleGetTopics_ok)
next
  assume a: "fst (handleGetConsumerGroups hooks (groups, None)) = SendResponse status' resp'"
  from handleGetConsumerGroups_success [OF a] show "status' = StatusOK"
    and "resp' = map (annotateGroup hooks) (filter (groupVisible hooks) groups)"
    by simp_all
next
  assume "\<exists>resp'. fst (handleGetConsumerGroups hooks (groups, None)) = SendResponse StatusOK resp'"
  then obtain resp0 where
    "fst (handleGetConsumerGroups hooks (groups, None)) = SendResponse StatusOK resp0" ..
  from handleGetConsumerGroups_success [OF this]
  show "\<forall>g\<in>set groups. groupHooksSucceed hooks g" by simp
next
  assume "\<forall>g\<in>set groups. groupHooksSucceed hooks g"
  then show "\<exists>resp'. fst (handleGetConsumerGroups hooks (groups, None)) = SendResponse StatusOK resp'"
    by (rule handleGetConsumerGroups_ok)
qed

lemmas hook_sample_defs = sampleHooks_def failingHooks_def sampleHeap_def sampleGroups_def
  topicVisible_def topicHooksSucceed_def annotateTopic_def topicCalls_def
  groupVisible_def groupHooksSucceed_def annotateGroup_def

text \<open>
  The topic "secret" and the group "secret-group" are denied: both responses have status 200
  and hold the other resource only, annotated.
\<close>

theorem authorization_denial_omits_witness:
  "fst (handleGetTopics sampleHooks ([0, 1], None) sampleHeap) =
     SendResponse StatusOK [Some \<lparr>ts_TopicName = ''orders'', ts_AllowedActions = [''viewMessages'']\<rparr>] \<and>
   fst (handleGetConsumerGroups sampleHooks (sampleGroups, None)) =
     SendResponse StatusOK [\<lparr>GroupID = ''billing'', cg_AllowedActions = [''all'']\<rparr>]"
proof -
  have "\<exists>resp. fst (handleGetTopics sampleHooks ([0, 1], None) sampleHeap) =
      SendResponse StatusOK resp"
    by (rule authorization_denial_omits [where hooks = sampleHooks and topics = "[0, 1]"
          and ?heap0.0 = sampleHeap, THEN conjunct2, THEN conjunct1, THEN iffD2])
       (simp add: hook_sample_defs)
  then obtain resp where r:
    "fst (handleGetTopics sampleHooks ([0, 1], None) sampleHeap) = SendResponse StatusOK resp" ..
  from authorization_denial_omits [where hooks = sampleHooks and topics = "[0, 1]"
      and ?heap0.0 = sampleHeap and status = StatusOK and resp = resp, THEN conjunct1, THEN mp, OF r]
  have "resp = map (\<lambda>p. map_option (annotateTopic sampleHooks) (sampleHeap p))
               (filter (topicVisible sampleHooks sampleHeap) [0, 1])"
    by (elim conjE)
  then have 1: "resp = [Some \<lparr>ts_TopicName = ''orders'', ts_AllowedActions = [''viewMessages'']\<rparr>]"
    by (simp add: hook_sample_defs)
  have "\<exists>resp'. fst (handleGetConsumerGroups sampleHooks (sampleGroups, None)) =
      SendResponse StatusOK resp'"
    by (rule authorization_denial_omits [where hooks = sampleHooks and groups = sampleGroups,
          THEN conjunct2, THEN conjunct2, THEN conjunct2, THEN iffD2])
       (simp add: hook_sample_defs)
  then obtain resp' where r':
    "fst (handleGetConsumerGroups sampleHooks (sampleGroups, None)) = SendResponse StatusOK resp'" ..
  from authorization_denial_omits [where hooks = sampleHooks and groups = sampleGroups
      and status' = StatusOK and resp' = resp',
      THEN conjunct2, THEN conjunct2, THEN conjunct1, THEN mp, OF r']
  have "resp' = map (annotateGroup sampleHooks) (filter (groupVisible sampleHooks) sampleGroups)"
    by (elim conjE)
  then have 2: "resp' = [\<lparr>GroupID = ''billing'', cg_AllowedActions = [''all'']\<rparr>]"
    by (simp add: hook_sample_defs)
  from r r' show ?thesis unfolding 1 2 by (rule conjI)
qed

text \<open>
  Claim C9 (the topics handler fetches allowed actions of hidden topics too). When
  \<open>handleGetTopics\<close> sends a response, then for every topic of the overview, visible or not,
  \<open>AllowedTopicActions\<close> has been called and the topic in the store carries its result. When
  \<open>AllowedTopicActions\<close> fails on any topic of the overview, visible or not, no response is sent
  (the handler sends an error or panics before). \<open>handleGetConsumerGroups\<close> calls
  \<open>AllowedConsumerGroupActions\<close> only for groups that \<open>CanSeeConsumerGroup\<close> admits.
\<close>

theorem topics_fetch_actions_of_hidden:
  "(fst (handleGetTopics hooks (topics, None) heap0) = SendResponse status resp \<longrightarrow>
      (\<forall>p\<in>set topics. \<exists>t. heap0 p = Some t \<and>
          heap (snd (handleGetTopics hooks (topics, None) heap0)) p =
            Some (annotateTopic hooks t) \<and>
          CallAllowedTopicActions (ts_TopicName t) \<in>
            set (t_calls (snd (handleGetTopics hooks (topics, None) heap0))))) \<and>
   ((\<exists>p\<in>set topics. \<exists>t. heap0 p = Some t \<and>
        snd (AllowedTopicActions hooks (ts_TopicName t)) \<noteq> None) \<longrightarrow>
      (\<forall>status resp. fst (handleGetTopics hooks (topics, None) heap0) \<noteq>
         SendResponse status resp)) \<and>
   (CallAllowedConsumerGroupActions n \<in> set (snd (handleGetConsumerGroups hooks (groups, err))) \<longrightarrow>
      (\<exists>g\<in>set groups. GroupID g = n \<and> groupVisible hooks g))"
proof (intro conjI impI ballI)
  fix p
  assume a: "fst (handleGetTopics hooks (topics, None) heap0) = SendResponse status resp"
    and p: "p \<in> set topics"
  from handleGetTopics_success(3) [OF a] p obtain t where t: "heap0 p = Some t"
    by (auto simp: topicHooksSucceed_def split: option.splits)
  from p have "concat (map (topicCalls heap0) topics) =
      concat (map (topicCalls heap0) (takeWhile (\<lambda>q. q \<noteq> p) topics)) @
      topicCalls heap0 p @ concat (map (topicCalls heap0) (tl (dropWhile (\<lambda>q. q \<noteq> p) topics)))"
    by (induction topics) auto
  then have "CallAllowedTopicActions (ts_TopicName t) \<in> set (concat (map (topicCalls heap0) topics))"
    using t by (simp add: topicCalls_def)
  with t p show "\<exists>t. heap0 p = Some t \<and>
          heap (snd (handleGetTopics hooks (topics, None) heap0)) p =
            Some (annotateTopic hooks t) \<and>
          CallAllowedTopicActions (ts_TopicName t) \<in>
            set (t_calls (snd (handleGetTopics hooks (topics, None) heap0)))"
    by (simp add: handleGetTopics_success(4,5) [OF a])
next
  assume "\<exists>p\<in>set topics. \<exists>t. heap0 p = Some t \<and>
        snd (AllowedTopicActions hooks (ts_TopicName t)) \<noteq> None"
  then obtain p where p: "p \<in> set topics" "\<not> topicHooksSucceed hooks heap0 p"
    by (auto simp: topicHooksSucceed_def)
  show "\<forall>status resp. fst (handleGetTopics hooks (topics, None) heap0) \<noteq> SendResponse status resp"
  proof (intro allI notI)
    fix status resp
    assume "fst (handleGetTopics hooks (topics, None) heap0) = SendResponse status resp"
    from handleGetTopics_success(3) [OF this] p show False by blast
  qed
next
  assume a: "CallAllowedConsumerGroupActions n \<in>
      set (snd (handleGetConsumerGroups hooks (groups, err)))"
  let ?st0 = "\<lparr>visibleGroups = [], g_calls = []\<rparr> :: 'b groupsState"
  from a have "CallAllowedConsumerGroupActions n \<in>
      set (g_calls (snd (groupsLoop hooks groups ?st0)))"
    by (cases err; cases "groupsLoop hooks groups ?st0")
       (auto simp: handleGetConsumerGroups_def split: option.splits)
  from groupsLoop_calls [OF this]
  show "\<exists>g\<in>set groups. GroupID g = n \<and> groupVisible hooks g" by simp
qed

text \<open>
  The hidden topic "secret" gets its allowed actions in the store although the response leaves
  it out; a policy whose \<open>AllowedTopicActions\<close> fails on it makes the whole request fail; the
  hidden group's allowed actions are never asked for.
\<close>

theorem topics_fetch_actions_of_hidden_witness:
  "fst (handleGetTopics sampleHooks ([0, 1], None) sampleHeap) =
     SendResponse StatusOK [Some \<lparr>ts_TopicName = ''orders'', ts_AllowedActions = [''viewMessages'']\<rparr>] \<and>
   \<not> topicVisible sampleHooks sampleHeap 1 \<and>
   heap (snd (handleGetTopics sampleHooks ([0, 1], None) sampleHeap)) 1 =
     Some \<lparr>ts_TopicName = ''secret'', ts_AllowedActions = [''viewMessages'']\<rparr> \<and>
   CallAllowedTopicActions ''secret'' \<in>
     set (t_calls (snd (handleGetTopics sampleHooks ([0, 1], None) sampleHeap))) \<and>
   \<not> topicVisible failingHooks sampleHeap 1 \<and>
   (\<forall>status resp. fst (handleGetTopics failingHooks ([0, 1], None) sampleHeap) \<noteq>
      SendResponse status resp) \<and>
   CallAllowedConsumerGroupActions ''secret-group'' \<notin>
     set (snd (handleGetConsumerGroups sampleHooks (sampleGroups, None)))"
proof -
  have r: "fst (handleGetTopics sampleHooks ([0, 1], None) sampleHeap) =
     SendResponse StatusOK [Some \<lparr>ts_TopicName = ''orders'', ts_AllowedActions = [''viewMessages'']\<rparr>]"
    by (simp add: handleGetTopics_def sampleHooks_def sampleHeap_def)
  have v: "\<not> topicVisible sampleHooks sampleHeap 1" "\<not> topicVisible failingHooks sampleHeap 1"
    by (simp_all add: hook_sample_defs)
  have "1 \<in> set [0, 1 :: nat]" by simp
  with topics_fetch_actions_of_hidden [where hooks = sampleHooks and topics = "[0, 1]"
      and ?heap0.0 = sampleHeap, THEN conjunct1, THEN mp, OF r]
  obtain t where t: "sampleHeap 1 = Some t"
    "heap (snd (handleGetTopics sampleHooks ([0, 1], None) sampleHeap)) 1 =
       Some (annotateTopic sampleHooks t)"
    "CallAllowedTopicActions (ts_TopicName t) \<in>
       set (t_calls (snd (handleGetTopics sampleHooks ([0, 1], None) sampleHeap)))"
    by blast
  from t(1) have "t = \<lparr>ts_TopicName = ''secret'', ts_AllowedActions = []\<rparr>"
    by (simp add: sampleHeap_def)
  with t(2,3) have a:
    "heap (snd (handleGetTopics sampleHooks ([0, 1], None) sampleHeap)) 1 =
       Some \<lparr>ts_TopicName = ''secret'', ts_AllowedActions = [''viewMessages'']\<rparr>"
    "CallAllowedTopicActions ''secret'' \<in>
       set (t_calls (snd (handleGetTopics sampleHooks ([0, 1], None) sampleHeap)))"
    by (simp_all add: annotateTopic_def sampleHooks_def)
  have b: "\<forall>status resp. fst (handleGetTopics failingHooks ([0, 1], None) sampleHeap) \<noteq>
      SendResponse status resp"
    by (rule topics_fetch_actions_of_hidden [where hooks = failingHooks and topics = "[0, 1]"
          and ?heap0.0 = sampleHeap, THEN conjunct2, THEN conjunct1, THEN mp])
       (simp add: hook_sample_defs)
  have c: "CallAllowedConsumerGroupActions ''secret-group'' \<notin>
     set (snd (handleGetConsumerGroups sampleHooks (sampleGroups, None)))"
  proof
    assume "CallAllowedConsumerGroupActions ''secret-group'' \<in>
     set (snd (handleGetConsumerGroups sampleHooks (sampleGroups, None)))"
    with topics_fetch_actions_of_hidden [where hooks = sampleHooks and groups = sampleGroups
        and n = "''secret-group''" and err = None, THEN conjunct2, THEN conjunct2]
    have "\<exists>g\<in>set sampleGroups. GroupID g = ''secret-group'' \<and> groupVisible sampleHooks g"
      by (rule mp)
    then show False by (simp add: hook_sample_defs)
  qed
  from r v a b c show ?thesis by (intro conjI)
qed

section \<open>Properties of \<open>loadVersionInfo\<close>\<close>

text \<open>
  Claim C10 (\<open>loadVersionInfo\<close> never returns). Whatever has been logged, whatever the
  environment holds and whatever the parsing and formatting functions do, the function panics
  with "todo" and returns no \<open>versionInfo\<close>.
\<close>

theorem loadVersionInfo_always_panics:
  "loadVersionInfo parseInt formatRFC3339 logger getenv = Panics ''todo'' \<and>
   (\<forall>result. loadVersionInfo parseInt formatRFC3339 logger getenv \<noteq> Returns result)"
  by (simp add: loadVersionInfo_def go_bind_def Let_def)

end
